theory Spec2Isabelle
  imports Main
begin

section \<open>JavaScript values\<close>

text \<open>
  The schema handler of \<^verbatim>\<open>src/schemaHandler.js\<close> works on JSON-like documents. A value
  is one of the JSON shapes or \<^verbatim>\<open>undefined\<close>. An object is the list of its own enumerable
  properties in enumeration order, with pairwise different keys; an array is the list of
  its elements. Numbers are the integers (\<^verbatim>\<open>NaN\<close> and fractions do not occur in the code
  paths below, which never compute with numbers). Only own enumerable properties are
  modelled: the \<^verbatim>\<open>length\<close> of arrays and strings and the members inherited from the
  prototypes are not, and a named (non-index) property stored on an array is not kept.
\<close>

datatype jsval =
    JUndefined
  | JNull
  | JBool bool
  | JNum int
  | JStr string
  | JArr "jsval list"
  | JObj "(string \<times> jsval) list"

type_synonym obj = "(string \<times> jsval) list"

text \<open>An \<^verbatim>\<open>Error\<close> instance: the engine's own \<^verbatim>\<open>TypeError\<close>, kept with the value at
  fault and the member or operation asked of it (reading a property of \<^verbatim>\<open>null\<close> or
  \<^verbatim>\<open>undefined\<close>, calling what is not a function, assigning to a property of a primitive
  in strict mode, \<^verbatim>\<open>Object.keys\<close> or \<^verbatim>\<open>Object.entries\<close> of \<^verbatim>\<open>null\<close> or \<^verbatim>\<open>undefined\<close>); or
  an error with a message and, for grouped failures of the reference parser, an
  \<^verbatim>\<open>errors\<close> list. The message of a \<^verbatim>\<open>TypeError\<close> is the engine's text for the fault
  (it quotes the member), a parameter below.\<close>

datatype js_error =
    TypeErr jsval string
  | JsError string "js_error list option"

text \<open>What a rejected promise or a \<^verbatim>\<open>throw\<close> carries: an \<^verbatim>\<open>Error\<close> instance or any other
  value.\<close>

datatype thrown =
    Err js_error
  | NonErr jsval

text \<open>\<^verbatim>\<open>Boolean(v)\<close>, the test of \<^verbatim>\<open>if (v)\<close>, \<^verbatim>\<open>v && ...\<close> and \<^verbatim>\<open>v || ...\<close>.\<close>

fun truthy :: "jsval \<Rightarrow> bool" where
  "truthy JUndefined = False"
| "truthy JNull = False"
| "truthy (JBool b) = b"
| "truthy (JNum n) = (n \<noteq> 0)"
| "truthy (JStr s) = (s \<noteq> [])"
| "truthy (JArr xs) = True"
| "truthy (JObj ps) = True"

fun nullish :: "jsval \<Rightarrow> bool" where
  "nullish JUndefined = True"
| "nullish JNull = True"
| "nullish v = False"

text \<open>The decimal numeral of an array index, as a property key.\<close>

definition digit_char :: "nat \<Rightarrow> char" where
  "digit_char d = char_of (48 + d)"

fun show_nat :: "nat \<Rightarrow> string" where
  "show_nat n = (if n < 10 then [digit_char n] else show_nat (n div 10) @ [digit_char (n mod 10)])"

declare show_nat.simps [simp del]

text \<open>The own enumerable string-keyed properties of a value, in enumeration order: what
  \<^verbatim>\<open>Object.keys\<close>, \<^verbatim>\<open>Object.entries\<close> and the spread \<^verbatim>\<open>{...v}\<close> see.\<close>

fun own_entries :: "jsval \<Rightarrow> obj" where
  "own_entries (JObj ps) = ps"
| "own_entries (JArr xs) = zip (map show_nat [0..<length xs]) xs"
| "own_entries (JStr s) = zip (map show_nat [0..<length s]) (map (\<lambda>c. JStr [c]) s)"
| "own_entries v = []"

text \<open>\<^verbatim>\<open>o[k]\<close> on an object given by its properties: \<^verbatim>\<open>undefined\<close> when the key is
  missing.\<close>

definition get_prop :: "obj \<Rightarrow> string \<Rightarrow> jsval" where
  "get_prop ps k = (case map_of ps k of None \<Rightarrow> JUndefined | Some v \<Rightarrow> v)"

text \<open>\<^verbatim>\<open>v?.[k]\<close>: \<^verbatim>\<open>undefined\<close> on \<^verbatim>\<open>null\<close> and \<^verbatim>\<open>undefined\<close>.\<close>

definition opt_prop :: "jsval \<Rightarrow> string \<Rightarrow> jsval" where
  "opt_prop v k = get_prop (own_entries v) k"

text \<open>\<^verbatim>\<open>v[k]\<close>: a \<^verbatim>\<open>TypeError\<close> on \<^verbatim>\<open>null\<close> and \<^verbatim>\<open>undefined\<close>.\<close>

definition read_prop :: "jsval \<Rightarrow> string \<Rightarrow> js_error + jsval" where
  "read_prop v k = (if nullish v then Inl (TypeErr v k) else Inr (opt_prop v k))"

text \<open>\<^verbatim>\<open>o[k] = v\<close> on the property list of an object: an existing key keeps its place, a new
  key goes last.\<close>

fun assign_key :: "(string \<times> 'a) list \<Rightarrow> string \<Rightarrow> 'a \<Rightarrow> (string \<times> 'a) list" where
  "assign_key [] k v = [(k, v)]"
| "assign_key ((k', v') # ps) k v =
     (if k' = k then (k, v) # ps else (k', v') # assign_key ps k v)"

text \<open>\<^verbatim>\<open>Object.assign(target, source)\<close> on property lists: the source's properties are
  assigned one by one, in order.\<close>

fun object_assign :: "obj \<Rightarrow> obj \<Rightarrow> obj" where
  "object_assign target [] = target"
| "object_assign target ((k, v) # src) = object_assign (assign_key target k v) src"

text \<open>\<^verbatim>\<open>delete o[k]\<close>.\<close>

definition delete_key :: "obj \<Rightarrow> string \<Rightarrow> obj" where
  "delete_key ps k = filter (\<lambda>p. fst p \<noteq> k) ps"

text \<open>\<^verbatim>\<open>t[k] = v\<close> in strict mode, for a value \<^verbatim>\<open>t\<close> that is neither \<^verbatim>\<open>null\<close> nor
  \<^verbatim>\<open>undefined\<close>: a primitive refuses the assignment with a \<^verbatim>\<open>TypeError\<close>; an array
  takes an index it has.\<close>

fun store_prop :: "jsval \<Rightarrow> string \<Rightarrow> jsval \<Rightarrow> js_error + jsval" where
  "store_prop (JObj ps) k v = Inr (JObj (assign_key ps k v))"
| "store_prop (JArr xs) k v =
     Inr (JArr (map (\<lambda>(i, x). if show_nat i = k then v else x) (zip [0..<length xs] xs)))"
| "store_prop t k v = Inl (TypeErr t k)"

text \<open>Putting a changed member back into its container (the source mutates the member in
  place, so the container sees the change).\<close>

definition write_back :: "jsval \<Rightarrow> string \<Rightarrow> jsval \<Rightarrow> jsval" where
  "write_back container k v = (case store_prop container k v of Inl e \<Rightarrow> container | Inr c \<Rightarrow> c)"

subsection \<open>Strings\<close>

text \<open>\<^verbatim>\<open>s.startsWith(p)\<close>.\<close>

fun startsWith :: "string \<Rightarrow> string \<Rightarrow> bool" where
  "startsWith s [] = True"
| "startsWith [] (p # ps) = False"
| "startsWith (c # cs) (p # ps) = (c = p \<and> startsWith cs ps)"

text \<open>\<^verbatim>\<open>s.includes(p)\<close>: \<open>p\<close> occurs in \<open>s\<close> as a contiguous substring.\<close>

fun str_includes :: "string \<Rightarrow> string \<Rightarrow> bool" where
  "str_includes [] p = (p = [])"
| "str_includes (c # cs) p = (startsWith (c # cs) p \<or> str_includes cs p)"

text \<open>\<^verbatim>\<open>s.split(sep)\<close> for a one-character separator: never empty.\<close>

fun str_split :: "char \<Rightarrow> string \<Rightarrow> string list" where
  "str_split sep [] = [[]]"
| "str_split sep (c # cs) =
     (if c = sep then [] # str_split sep cs
      else (case str_split sep cs of [] \<Rightarrow> [[c]] | w # ws \<Rightarrow> (c # w) # ws))"

definition newline :: string where
  "newline = [CHR 0x0A]"

section \<open>Collaborators and handler state\<close>

text \<open>
  The libraries the handler calls are parameters of the model: the reference parser's
  \<^verbatim>\<open>$RefParser.bundle\<close> and \<^verbatim>\<open>$RefParser.dereference\<close> (asynchronous; they reject with
  \<^verbatim>\<open>Error\<close> instances, and are taken as functions of the document they are given),
  \<^verbatim>\<open>SchemaConvertor.convert\<close> (which may throw anything), \<^verbatim>\<open>uuid\<close> (the \<open>i\<close>-th identifier
  it hands out), \<^verbatim>\<open>isDeepStrictEqual\<close>, and the text a template literal puts for
  \<^verbatim>\<open>JSON.stringify(v)\<close> and for a value that is not a string, and the engine's message
  text for a \<^verbatim>\<open>TypeError\<close>. The reference parser's options are fixed when the handler is
  built and are part of the two parser functions. The logger has no effect on the results.
\<close>

record collab =
  ref_bundle :: "jsval \<Rightarrow> js_error + jsval"
  ref_dereference :: "jsval \<Rightarrow> js_error + jsval"
  convert :: "jsval \<Rightarrow> jsval \<Rightarrow> thrown + jsval"
  uuid :: "nat \<Rightarrow> string"
  isEqual :: "jsval \<Rightarrow> jsval \<Rightarrow> bool"
  stringify :: "jsval \<Rightarrow> string"
  toString :: "jsval \<Rightarrow> string"
  typeErrorText :: "jsval \<Rightarrow> string \<Rightarrow> string"

text \<open>\<^verbatim>\<open>${v}\<close> in a template literal, and \<open>v\<close> used as a property key.\<close>

definition to_string :: "collab \<Rightarrow> jsval \<Rightarrow> string" where
  "to_string C v = (case v of JStr s \<Rightarrow> s | _ \<Rightarrow> toString C v)"

text \<open>\<^verbatim>\<open>error.message\<close> and \<^verbatim>\<open>error.errors\<close> of an \<^verbatim>\<open>Error\<close> instance.\<close>

definition error_message :: "collab \<Rightarrow> js_error \<Rightarrow> string" where
  "error_message C error =
     (case error of TypeErr v k \<Rightarrow> typeErrorText C v k | JsError message errs \<Rightarrow> message)"

definition error_errors :: "js_error \<Rightarrow> js_error list option" where
  "error_errors error = (case error of TypeErr v k \<Rightarrow> None | JsError message errs \<Rightarrow> errs)"

text \<open>
  The handler's fields. \<open>components\<close> is \<^verbatim>\<open>this.openAPI.components\<close>: absent, or an object
  whose members (\<^verbatim>\<open>schemas\<close> and the other component types) are objects from names to
  values. \<open>modelReferences\<close> is the cache from model names to pointer strings, \<open>models\<close> the
  normalised model list, and \<open>minted\<close> counts the calls of \<^verbatim>\<open>uuid()\<close> made so far.
\<close>

record handler =
  components :: "(string \<times> obj) list option"
  modelReferences :: "(string \<times> string) list"
  models :: "obj list"
  minted :: nat

text \<open>The registry \<^verbatim>\<open>components.schemas\<close>, empty when it is absent.\<close>

definition schemas_of :: "handler \<Rightarrow> obj" where
  "schemas_of h =
     (case components h of None \<Rightarrow> []
      | Some cs \<Rightarrow> (case map_of cs ''schemas'' of None \<Rightarrow> [] | Some r \<Rightarrow> r))"

section \<open>Registry primitives\<close>

text \<open>\<^verbatim>\<open>__existsInComponents\<close>: \<^verbatim>\<open>Boolean(this.openAPI?.components?.schemas?.[name])\<close>.\<close>

definition existsInComponents :: "handler \<Rightarrow> string \<Rightarrow> bool" where
  "existsInComponents h name =
     (case components h of None \<Rightarrow> False
      | Some cs \<Rightarrow> (case map_of cs ''schemas'' of None \<Rightarrow> False
                    | Some r \<Rightarrow> truthy (get_prop r name)))"

text \<open>\<^verbatim>\<open>__isTheSameSchema\<close>: \<^verbatim>\<open>isEqual(schema, this.openAPI.components.schemas[name])\<close>, with
  no optional chaining.\<close>

definition isTheSameSchema :: "collab \<Rightarrow> handler \<Rightarrow> jsval \<Rightarrow> string \<Rightarrow> js_error + bool" where
  "isTheSameSchema C h schema otherSchemaName =
     (case components h of None \<Rightarrow> Inl (TypeErr JUndefined ''schemas'')
      | Some cs \<Rightarrow> (case map_of cs ''schemas'' of None \<Rightarrow> Inl (TypeErr JUndefined otherSchemaName)
                    | Some r \<Rightarrow> Inr (isEqual C schema (get_prop r otherSchemaName))))"

text \<open>\<^verbatim>\<open>__addToComponents\<close>: the three branches of the source.\<close>

definition addToComponents :: "string \<Rightarrow> jsval \<Rightarrow> string \<Rightarrow> handler \<Rightarrow> handler" where
  "addToComponents type schema name h =
     (case components h of
        Some cs \<Rightarrow>
          (case map_of cs type of
             Some r \<Rightarrow> h\<lparr>components := Some (assign_key cs type (assign_key r name schema))\<rparr>
           | None \<Rightarrow> h\<lparr>components := Some (assign_key cs type [(name, schema)])\<rparr>)
      | None \<Rightarrow> h\<lparr>components := Some [(type, [(name, schema)])]\<rparr>)"

section \<open>Error classification\<close>

definition http_message :: "collab \<Rightarrow> obj \<Rightarrow> string \<Rightarrow> string" where
  "http_message C model message =
     ''There was an error dereferencing '' @ to_string C (get_prop model ''name'') @
     '' schema.  '' @ newline @ newline @ '' dereferencing message: '' @ message @
     '' '' @ newline @ newline @ '' Model received: '' @ stringify C (JObj model)"

text \<open>\<^verbatim>\<open>__HTTPError\<close>: the test is on \<^verbatim>\<open>error.message\<close>, whatever the error is.\<close>

definition HTTPError :: "collab \<Rightarrow> js_error \<Rightarrow> obj \<Rightarrow> js_error + unit" where
  "HTTPError C error model =
     (if str_includes (error_message C error) ''HTTP ERROR''
      then Inl (JsError (http_message C model (error_message C error)) None)
      else Inr ())"

fun HTTPError_each :: "collab \<Rightarrow> js_error list \<Rightarrow> obj \<Rightarrow> js_error + unit" where
  "HTTPError_each C [] model = Inr ()"
| "HTTPError_each C (err # errs) model =
     (case HTTPError C err model of Inl e \<Rightarrow> Inl e | Inr u \<Rightarrow> HTTPError_each C errs model)"

text \<open>\<^verbatim>\<open>__checkForHTTPErrorsAndThrow\<close>: with an \<^verbatim>\<open>errors\<close> list (an array, so truthy) only
  the sub-errors are looked at.\<close>

definition checkForHTTPErrorsAndThrow :: "collab \<Rightarrow> js_error \<Rightarrow> obj \<Rightarrow> js_error + unit" where
  "checkForHTTPErrorsAndThrow C error model =
     (case error_errors error of
        Some errs \<Rightarrow> HTTPError_each C errs model
      | None \<Rightarrow> HTTPError C error model)"

definition missing_path_message :: string where
  "missing_path_message = ''Expected a file path, URL, or object. Got undefined''"

text \<open>\<^verbatim>\<open>__checkForMissingPathAndThrow\<close>.\<close>

definition checkForMissingPathAndThrow :: "collab \<Rightarrow> js_error \<Rightarrow> js_error + unit" where
  "checkForMissingPathAndThrow C error =
     (if error_message C error = missing_path_message then Inl error else Inr ())"

section \<open>Reference resolver\<close>

text \<open>
  \<^verbatim>\<open>__dereferenceSchema\<close>. The source recurses with no bound, so the model takes fuel: the
  number of passes (one bundle and one dereference each) it may make; \<open>None\<close> says the
  fuel ran out. A pass whose dereferenced result has the root \<^verbatim>\<open>$ref === "#"\<close> patches the
  result from its \<^verbatim>\<open>definitions\<close> and starts another pass on the patched document. Only an
  object has an own \<^verbatim>\<open>$ref\<close>.
\<close>

fun dereferenceSchema :: "collab \<Rightarrow> nat \<Rightarrow> jsval \<Rightarrow> (js_error + jsval) option" where
  "dereferenceSchema C 0 schema = None"
| "dereferenceSchema C (Suc fuel) schema =
     (case ref_bundle C schema of
        Inl e \<Rightarrow> Some (Inl e)
      | Inr bundledSchema \<Rightarrow>
          (case ref_dereference C bundledSchema of
             Inl e \<Rightarrow> Some (Inl e)
           | Inr deReferencedSchema \<Rightarrow>
               (case deReferencedSchema of
                  JObj d \<Rightarrow>
                    if get_prop d ''$ref'' = JStr ''#'' then
                      (case read_prop bundledSchema ''$ref'' of
                         Inl e \<Rightarrow> Some (Inl e)
                       | Inr (JStr oldRef) \<Rightarrow>
                           (let pathTitle = last (str_split CHR ''/'' oldRef) in
                            case read_prop (get_prop d ''definitions'') pathTitle of
                              Inl e \<Rightarrow> Some (Inl e)
                            | Inr referencedProperties \<Rightarrow>
                                dereferenceSchema C fuel
                                  (JObj (delete_key
                                     (object_assign d (own_entries referencedProperties))
                                     ''$ref'')))
                       | Inr other \<Rightarrow> Some (Inl (TypeErr other ''split'')))
                    else Some (Inr deReferencedSchema)
                | _ \<Rightarrow> Some (Inr deReferencedSchema))))"

section \<open>Converter adapter\<close>

text \<open>The loop over \<^verbatim>\<open>Object.entries(model)\<close> that copies the vendor extensions (keys
  starting with \<^verbatim>\<open>x-\<close>) onto \<^verbatim>\<open>convertedSchemas.schemas[name]\<close> when that entry is truthy.\<close>

fun overlay :: "collab \<Rightarrow> jsval \<Rightarrow> obj \<Rightarrow> jsval \<Rightarrow> js_error + jsval" where
  "overlay C name [] convertedSchemas = Inr convertedSchemas"
| "overlay C name ((key, val) # rest) convertedSchemas =
     (if startsWith key ''x-'' then
        (case read_prop convertedSchemas ''schemas'' of
           Inl e \<Rightarrow> Inl e
         | Inr schemas \<Rightarrow>
             (let target = opt_prop schemas (to_string C name) in
              if truthy target then
                (case store_prop target key val of
                   Inl e \<Rightarrow> Inl e
                 | Inr target' \<Rightarrow>
                     overlay C name rest
                       (write_back convertedSchemas ''schemas''
                          (write_back schemas (to_string C name) target')))
              else overlay C name rest convertedSchemas))
      else overlay C name rest convertedSchemas)"

text \<open>The handler of the resolver's rejection in \<^verbatim>\<open>__dereferenceAndConvert\<close>: the two checks
  may throw, otherwise the unresolved schema stands in for the resolved one.\<close>

definition on_resolve_error :: "collab \<Rightarrow> js_error \<Rightarrow> obj \<Rightarrow> jsval \<Rightarrow> js_error + jsval" where
  "on_resolve_error C err model schema =
     (case checkForHTTPErrorsAndThrow C err model of
        Inl e \<Rightarrow> Inl e
      | Inr u \<Rightarrow>
          (case checkForMissingPathAndThrow C err of
             Inl e \<Rightarrow> Inl e
           | Inr u' \<Rightarrow> Inr schema))"

text \<open>What \<^verbatim>\<open>__dereferenceAndConvert\<close> does once it holds the document to convert.\<close>

definition convert_and_overlay :: "collab \<Rightarrow> jsval \<Rightarrow> jsval \<Rightarrow> obj \<Rightarrow> thrown + jsval" where
  "convert_and_overlay C dereferencedSchema name model =
     (case convert C dereferencedSchema name of
        Inl t \<Rightarrow> Inl t
      | Inr convertedSchemas \<Rightarrow>
          (case overlay C name model convertedSchemas of
             Inl e \<Rightarrow> Inl (Err e)
           | Inr c \<Rightarrow> Inr c))"

text \<open>\<^verbatim>\<open>__dereferenceAndConvert\<close>.\<close>

definition dereferenceAndConvert ::
  "collab \<Rightarrow> nat \<Rightarrow> jsval \<Rightarrow> jsval \<Rightarrow> obj \<Rightarrow> (thrown + jsval) option" where
  "dereferenceAndConvert C fuel schema name model =
     (case dereferenceSchema C fuel schema of
        None \<Rightarrow> None
      | Some (Inr dereferencedSchema) \<Rightarrow>
          Some (convert_and_overlay C dereferencedSchema name model)
      | Some (Inl err) \<Rightarrow>
          (case on_resolve_error C err model schema of
             Inl e \<Rightarrow> Some (Inl (Err e))
           | Inr dereferencedSchema \<Rightarrow>
               Some (convert_and_overlay C dereferencedSchema name model)))"

section \<open>Resolve one named schema\<close>

text \<open>The loop of \<^verbatim>\<open>createSchema\<close> over the converted entries; it carries \<^verbatim>\<open>finalName\<close>.\<close>

fun createSchema_entries ::
  "collab \<Rightarrow> string \<Rightarrow> obj \<Rightarrow> string \<Rightarrow> handler \<Rightarrow> (js_error + string) \<times> handler" where
  "createSchema_entries C originalName [] finalName h = (Inr finalName, h)"
| "createSchema_entries C originalName ((schemaName, schemaValue) # rest) finalName h =
     (if existsInComponents h schemaName then
        (case isTheSameSchema C h schemaValue schemaName of
           Inl e \<Rightarrow> (Inl e, h)
         | Inr same \<Rightarrow>
             if same = False then
               (if schemaName = originalName then
                  (let finalName' = schemaName @ ''-'' @ uuid C (minted h)
                   in createSchema_entries C originalName rest finalName'
                        (addToComponents ''schemas'' schemaValue finalName'
                           (h\<lparr>minted := Suc (minted h)\<rparr>)))
                else createSchema_entries C originalName rest finalName
                       (addToComponents ''schemas'' schemaValue schemaName h))
             else createSchema_entries C originalName rest finalName h)
      else createSchema_entries C originalName rest finalName
             (addToComponents ''schemas'' schemaValue schemaName h))"

text \<open>\<^verbatim>\<open>createSchema\<close>. A missing cache entry reads as \<^verbatim>\<open>undefined\<close>, which is falsy like the
  empty string. \<^verbatim>\<open>Object.entries\<close> throws on \<^verbatim>\<open>null\<close> and \<^verbatim>\<open>undefined\<close>.\<close>

definition createSchema ::
  "collab \<Rightarrow> nat \<Rightarrow> handler \<Rightarrow> string \<Rightarrow> jsval \<Rightarrow> ((thrown + string) \<times> handler) option" where
  "createSchema C fuel h name schema =
     (let cached = (case map_of (modelReferences h) name of None \<Rightarrow> [] | Some r \<Rightarrow> r) in
      if cached \<noteq> [] \<and> schema = JUndefined then Some (Inr cached, h)
      else
        (case dereferenceAndConvert C fuel schema (JStr name)
                [(''name'', JStr name), (''schema'', schema)] of
           None \<Rightarrow> None
         | Some (Inl t) \<Rightarrow> Some (Inl t, h)
         | Some (Inr convertedSchemas) \<Rightarrow>
             (case read_prop convertedSchemas ''schemas'' of
                Inl e \<Rightarrow> Some (Inl (Err e), h)
              | Inr schemas \<Rightarrow>
                  if nullish schemas then Some (Inl (Err (TypeErr schemas ''Object.entries'')), h)
                  else
                    (case createSchema_entries C name (own_entries schemas) name h of
                       (Inl e, h') \<Rightarrow> Some (Inl (Err e), h')
                     | (Inr finalName, h') \<Rightarrow>
                         Some (Inr (''#/components/schemas/'' @ finalName), h')))))"

section \<open>Absorb all models\<close>

text \<open>The inner loop of \<^verbatim>\<open>addModelsToOpenAPI\<close> over the converted entries.\<close>

fun addModel_entries :: "jsval \<Rightarrow> obj \<Rightarrow> handler \<Rightarrow> handler" where
  "addModel_entries modelName [] h = h"
| "addModel_entries modelName ((schemaName, schemaValue) # rest) h =
     addModel_entries modelName rest
       (addToComponents ''schemas'' schemaValue schemaName
          (if JStr schemaName = modelName
           then h\<lparr>modelReferences :=
                    assign_key (modelReferences h) schemaName
                      (''#/components/schemas/'' @ schemaName)\<rparr>
           else h))"

definition conversion_message :: "collab \<Rightarrow> obj \<Rightarrow> jsval \<Rightarrow> string" where
  "conversion_message C model convertedSchemas =
     ''There was an error converting the '' @ to_string C (get_prop model ''name'') @
     '' schema. Model received looks like: '' @ newline @ newline @ stringify C (JObj model) @
     ''.  The convereted schema looks like '' @ newline @ newline @ stringify C convertedSchemas"

text \<open>The handler \<^verbatim>\<open>.catch((err) => { if (err instanceof Error) throw err; else return err; })\<close>
  of \<^verbatim>\<open>addModelsToOpenAPI\<close>.\<close>

definition catch_non_error :: "thrown + jsval \<Rightarrow> js_error + jsval" where
  "catch_non_error r = (case r of Inl (Err e) \<Rightarrow> Inl e | Inl (NonErr v) \<Rightarrow> Inr v | Inr v \<Rightarrow> Inr v)"

text \<open>The body of the loop of \<^verbatim>\<open>addModelsToOpenAPI\<close> for one model;
  \<^verbatim>\<open>typeof x === "object"\<close>, not an array and not \<^verbatim>\<open>null\<close> holds of objects only.\<close>

definition addModel :: "collab \<Rightarrow> nat \<Rightarrow> obj \<Rightarrow> handler \<Rightarrow> ((thrown + unit) \<times> handler) option" where
  "addModel C fuel model h =
     (let modelName = get_prop model ''name''; modelSchema = get_prop model ''schema'' in
      case dereferenceAndConvert C fuel modelSchema modelName model of
        None \<Rightarrow> None
      | Some r \<Rightarrow>
          (case catch_non_error r of
             Inl e \<Rightarrow> Some (Inl (Err e), h)
           | Inr convertedSchemas \<Rightarrow>
               (case read_prop convertedSchemas ''schemas'' of
                  Inl e \<Rightarrow> Some (Inl (Err e), h)
                | Inr (JObj entries) \<Rightarrow> Some (Inr (), addModel_entries modelName entries h)
                | Inr other \<Rightarrow>
                    Some (Inl (Err (JsError (conversion_message C model convertedSchemas) None)),
                          h))))"

fun addModels :: "collab \<Rightarrow> nat \<Rightarrow> obj list \<Rightarrow> handler \<Rightarrow> ((thrown + unit) \<times> handler) option" where
  "addModels C fuel [] h = Some (Inr (), h)"
| "addModels C fuel (model # rest) h =
     (case addModel C fuel model h of
        None \<Rightarrow> None
      | Some (Inl t, h') \<Rightarrow> Some (Inl t, h')
      | Some (Inr u, h') \<Rightarrow> addModels C fuel rest h')"

text \<open>\<^verbatim>\<open>addModelsToOpenAPI\<close>: the models of the handler, in order; the first failure ends the
  whole operation.\<close>

definition addModelsToOpenAPI :: "collab \<Rightarrow> nat \<Rightarrow> handler \<Rightarrow> ((thrown + unit) \<times> handler) option" where
  "addModelsToOpenAPI C fuel h = addModels C fuel (models h) h"

section \<open>Model normaliser\<close>

text \<open>\<^verbatim>\<open>standardModel\<close> of \<^verbatim>\<open>__standardiseModels\<close>. Reading \<^verbatim>\<open>schema\<close> off \<^verbatim>\<open>null\<close> or
  \<^verbatim>\<open>undefined\<close> throws; any other value that is not an object has neither \<^verbatim>\<open>schema\<close> nor
  \<^verbatim>\<open>content\<close>, so \<^verbatim>\<open>Object.keys(model.content)\<close> throws. With no key under \<^verbatim>\<open>content\<close> the
  media type is \<^verbatim>\<open>undefined\<close> and reading its \<^verbatim>\<open>schema\<close> throws.\<close>

definition standardModel :: "jsval \<Rightarrow> js_error + obj" where
  "standardModel model =
     (case model of
        JObj m \<Rightarrow>
          if truthy (get_prop m ''schema'') then Inr m
          else
            (let content = get_prop m ''content'' in
             if nullish content then Inl (TypeErr content ''Object.keys'')
             else
               (case own_entries content of
                  [] \<Rightarrow> Inl (TypeErr JUndefined ''schema'')
                | (contentType, media) # others \<Rightarrow>
                    (case read_prop (opt_prop content contentType) ''schema'' of
                       Inl e \<Rightarrow> Inl e
                     | Inr sch \<Rightarrow>
                         Inr (assign_key (assign_key m ''contentType'' (JStr contentType))
                                ''schema'' sch))))
      | _ \<Rightarrow>
          if nullish model then Inl (TypeErr model ''schema'')
          else Inl (TypeErr JUndefined ''Object.keys''))"

text \<open>\<^verbatim>\<open>xs.map(standardModel)\<close>: the first throw ends it.\<close>

fun standardModel_each :: "jsval list \<Rightarrow> js_error + obj list" where
  "standardModel_each [] = Inr []"
| "standardModel_each (x # xs) =
     (case standardModel x of
        Inl e \<Rightarrow> Inl e
      | Inr m \<Rightarrow> (case standardModel_each xs of Inl e \<Rightarrow> Inl e | Inr ms \<Rightarrow> Inr (m # ms)))"

text \<open>\<^verbatim>\<open>serverless.service.custom.documentation\<close>, with its two optional lists.\<close>

record documentation =
  doc_models :: "jsval list option"
  doc_modelsList :: "jsval list option"

text \<open>\<^verbatim>\<open>xs?.map(f) || []\<close>.\<close>

definition or_empty :: "jsval list option \<Rightarrow> jsval list" where
  "or_empty xs = (case xs of None \<Rightarrow> [] | Some ys \<Rightarrow> ys)"

text \<open>\<^verbatim>\<open>__standardiseModels\<close>: the value it leaves in \<^verbatim>\<open>this.models\<close>. The gateway models are
  the values of \<^verbatim>\<open>this.apiGatewayModels\<close> in key order.\<close>

definition standardiseModels ::
  "documentation option \<Rightarrow> (string \<times> jsval) list \<Rightarrow> js_error + obj list" where
  "standardiseModels doc apiGatewayModels =
     (case standardModel_each (or_empty (case doc of None \<Rightarrow> None | Some d \<Rightarrow> doc_models d)) of
        Inl e \<Rightarrow> Inl e
      | Inr standardisedModels \<Rightarrow>
          (case standardModel_each
                  (or_empty (case doc of None \<Rightarrow> None | Some d \<Rightarrow> doc_modelsList d)) of
             Inl e \<Rightarrow> Inl e
           | Inr standardisedModelsList \<Rightarrow>
               (case standardModel_each (map snd apiGatewayModels) of
                  Inl e \<Rightarrow> Inl e
                | Inr standardisedGatewayModels \<Rightarrow>
                    Inr (standardisedModels @ standardisedModelsList @
                         standardisedGatewayModels))))"

section \<open>Sample collaborators and documents\<close>

text \<open>Collaborators for the concrete runs below: a parser that leaves a document as it
  is and rejects \<^verbatim>\<open>undefined\<close> with the missing-path message, a converter that files the
  document under the requested name, numbered identifiers, syntactic equality, and an
  engine text that quotes the member.\<close>

definition sample :: collab where
  "sample =
     \<lparr>ref_bundle = (\<lambda>d. if d = JUndefined then Inl (JsError missing_path_message None) else Inr d),
      ref_dereference = Inr,
      convert = (\<lambda>d n. Inr (JObj [(''schemas'', JObj [(case n of JStr s \<Rightarrow> s | _ \<Rightarrow> ''?'', d)])])),
      uuid = (\<lambda>i. ''u'' @ show_nat i),
      isEqual = (=),
      stringify = (\<lambda>v. ''<json>''),
      toString = (\<lambda>v. ''<value>''),
      typeErrorText = (\<lambda>v k. ''Cannot read properties of undefined, reading '' @ k)\<rparr>"

definition string_schema :: jsval where
  "string_schema = JObj [(''type'', JStr ''string'')]"

definition number_schema :: jsval where
  "number_schema = JObj [(''type'', JStr ''number'')]"

text \<open>A handler whose registry holds \<^verbatim>\<open>Foo\<close> as the string schema.\<close>

definition foo_handler :: handler where
  "foo_handler =
     \<lparr>components = Some [(''schemas'', [(''Foo'', string_schema)])],
      modelReferences = [], models = [], minted = 0\<rparr>"

text \<open>The same handler after one and after two requests for \<^verbatim>\<open>Foo\<close> as the number
  schema.\<close>

definition foo_once :: handler where
  "foo_once =
     \<lparr>components = Some [(''schemas'', [(''Foo'', string_schema), (''Foo-u0'', number_schema)])],
      modelReferences = [], models = [], minted = 1\<rparr>"

definition foo_twice :: handler where
  "foo_twice =
     \<lparr>components = Some [(''schemas'', [(''Foo'', string_schema), (''Foo-u0'', number_schema),
                                         (''Foo-u1'', number_schema)])],
      modelReferences = [], models = [], minted = 2\<rparr>"

text \<open>A handler on a document with no \<^verbatim>\<open>components\<close>, and what one request for \<^verbatim>\<open>Foo\<close> as
  the number schema makes of it.\<close>

definition empty_handler :: handler where
  "empty_handler = \<lparr>components = None, modelReferences = [], models = [], minted = 0\<rparr>"

definition foo_number_handler :: handler where
  "foo_number_handler =
     \<lparr>components = Some [(''schemas'', [(''Foo'', number_schema)])],
      modelReferences = [], models = [], minted = 0\<rparr>"

text \<open>A handler whose registry holds \<^verbatim>\<open>Foo\<close> as \<^verbatim>\<open>null\<close>.\<close>

definition null_handler :: handler where
  "null_handler =
     \<lparr>components = Some [(''schemas'', [(''Foo'', JNull)])],
      modelReferences = [], models = [], minted = 0\<rparr>"

text \<open>A documentation model \<^verbatim>\<open>Foo\<close> with the number schema, the handler that lists it over
  a registry holding \<^verbatim>\<open>Foo\<close> as the string schema, and that handler after the bulk
  operation.\<close>

definition foo_model :: obj where
  "foo_model = [(''name'', JStr ''Foo''), (''schema'', number_schema)]"

definition foo_listed :: handler where
  "foo_listed =
     \<lparr>components = Some [(''schemas'', [(''Foo'', string_schema)])],
      modelReferences = [], models = [foo_model], minted = 0\<rparr>"

definition foo_absorbed :: handler where
  "foo_absorbed =
     \<lparr>components = Some [(''schemas'', [(''Foo'', number_schema)])],
      modelReferences = [(''Foo'', ''#/components/schemas/Foo'')],
      models = [foo_model], minted = 0\<rparr>"

text \<open>Converters that misbehave: one whose output has no \<^verbatim>\<open>schemas\<close>, one whose
  \<^verbatim>\<open>schemas\<close> is an array, one that throws \<^verbatim>\<open>null\<close> and one that throws a string.\<close>

definition no_schemas :: collab where
  "no_schemas = sample\<lparr>convert := (\<lambda>d n. Inr (JObj []))\<rparr>"

definition array_schemas :: collab where
  "array_schemas = sample\<lparr>convert := (\<lambda>d n. Inr (JObj [(''schemas'', JArr [d])]))\<rparr>"

definition throws_null :: collab where
  "throws_null = sample\<lparr>convert := (\<lambda>d n. Inl (NonErr JNull))\<rparr>"

definition throws_text :: collab where
  "throws_text = sample\<lparr>convert := (\<lambda>d n. Inl (NonErr (JStr ''boom'')))\<rparr>"

text \<open>One that throws a well-shaped schema set, which is not an \<^verbatim>\<open>Error\<close> instance
  either.\<close>

definition throws_set :: collab where
  "throws_set =
     sample\<lparr>convert := (\<lambda>d n. Inl (NonErr (JObj [(''schemas'', JObj [(''Foo'', d)])])))\<rparr>"

text \<open>The empty handler after \<^verbatim>\<open>createSchema\<close> has filed an array's element under its
  index.\<close>

definition index_handler :: handler where
  "index_handler =
     \<lparr>components = Some [(''schemas'', [(''0'', number_schema)])],
      modelReferences = [], models = [], minted = 0\<rparr>"

text \<open>A parser whose bundling rejects with a given error.\<close>

definition rejecting :: "js_error \<Rightarrow> collab" where
  "rejecting e = sample\<lparr>ref_bundle := (\<lambda>d. Inl e)\<rparr>"

text \<open>A schema given by path whose bundled form points at a definition and whose
  dereferenced form is the bare self-reference, with a parser that does this to it and
  leaves every other document as it is.\<close>

definition path_schema :: jsval where
  "path_schema = JStr ''./models/foo.json''"

definition bundled_doc :: jsval where
  "bundled_doc =
     JObj [(''$ref'', JStr ''#/definitions/Foo''),
           (''definitions'', JObj [(''Foo'', JObj [(''type'', JStr ''object'')])])]"

definition self_ref_doc :: obj where
  "self_ref_doc =
     [(''$ref'', JStr ''#''),
      (''definitions'', JObj [(''Foo'', JObj [(''type'', JStr ''object'')])])]"

definition recovered_doc :: jsval where
  "recovered_doc =
     JObj [(''definitions'', JObj [(''Foo'', JObj [(''type'', JStr ''object'')])]),
           (''type'', JStr ''object'')]"

definition self_ref_parser :: collab where
  "self_ref_parser =
     sample\<lparr>ref_bundle := (\<lambda>d. if d = path_schema then Inr bundled_doc else Inr d),
            ref_dereference := (\<lambda>d. if d = bundled_doc then Inr (JObj self_ref_doc) else Inr d)\<rparr>"

text \<open>The same with a fragment that points at another definition: the second pass of the
  parser resolves that pointer, so what it returns is not the patched document.\<close>

definition nested_definitions :: jsval where
  "nested_definitions =
     JObj [(''Foo'', JObj [(''items'', JObj [(''$ref'', JStr ''#/definitions/Id'')])]),
           (''Id'', JObj [(''type'', JStr ''string'')])]"

definition nested_bundled :: jsval where
  "nested_bundled = JObj [(''$ref'', JStr ''#/definitions/Foo''), (''definitions'', nested_definitions)]"

definition nested_self_ref :: obj where
  "nested_self_ref = [(''$ref'', JStr ''#''), (''definitions'', nested_definitions)]"

definition nested_patched :: jsval where
  "nested_patched =
     JObj [(''definitions'', nested_definitions),
           (''items'', JObj [(''$ref'', JStr ''#/definitions/Id'')])]"

definition nested_resolved :: jsval where
  "nested_resolved =
     JObj [(''definitions'',
            JObj [(''Foo'', JObj [(''items'', JObj [(''type'', JStr ''string'')])]),
                  (''Id'', JObj [(''type'', JStr ''string'')])]),
           (''items'', JObj [(''type'', JStr ''string'')])]"

definition nested_parser :: collab where
  "nested_parser =
     sample\<lparr>ref_bundle := (\<lambda>d. if d = path_schema then Inr nested_bundled else Inr d),
            ref_dereference :=
              (\<lambda>d. if d = nested_bundled then Inr (JObj nested_self_ref)
                   else if d = nested_patched then Inr nested_resolved
                   else Inr d)\<rparr>"







section \<open>Auxiliary notions\<close>

text \<open>An entry is settled in a handler when the registry holds its value under its name,
  or holds there a truthy value that the equality test accepts.\<close>

definition settled :: "collab \<Rightarrow> handler \<Rightarrow> string \<times> jsval \<Rightarrow> bool" where
  "settled C h e =
     (map_of (schemas_of h) (fst e) = Some (snd e) \<or>
      (truthy (get_prop (schemas_of h) (fst e)) \<and>
       isEqual C (snd e) (get_prop (schemas_of h) (fst e))))"

text \<open>The messages the HTTP check looks at (claim C5 as the code has it): the sub-errors'
  messages when the error carries a sub-error list, and then not the error's own; the
  error's own message otherwise.\<close>

definition messages_checked :: "collab \<Rightarrow> js_error \<Rightarrow> string list" where
  "messages_checked C err =
     (case error_errors err of
        Some errs \<Rightarrow> map (error_message C) errs
      | None \<Rightarrow> [error_message C err])"

definition http_marked :: "string \<Rightarrow> bool" where
  "http_marked message = str_includes message ''HTTP ERROR''"


text \<open>The entries the normaliser can read (claim C8 as the code has it): an object whose
  \<^verbatim>\<open>schema\<close> is truthy, or an object, with no \<^verbatim>\<open>schema\<close> or a falsy one, whose \<^verbatim>\<open>content\<close>
  has a single media-type key holding a value other than \<^verbatim>\<open>null\<close> and \<^verbatim>\<open>undefined\<close>.\<close>

fun single_entry :: "jsval \<Rightarrow> (string \<times> jsval) option" where
  "single_entry (JObj [p]) = Some p"
| "single_entry v = None"


text \<open>What the normaliser makes of such an entry: the entry itself when its \<^verbatim>\<open>schema\<close> is
  truthy; otherwise the entry with the media type recorded as \<^verbatim>\<open>contentType\<close> and that media
  type's schema put at the top level, in place of a falsy \<^verbatim>\<open>schema\<close> if there was one.\<close>

definition normalised :: "jsval \<Rightarrow> obj \<Rightarrow> bool" where
  "normalised e out =
     (case e of
        JObj m \<Rightarrow>
          if truthy (get_prop m ''schema'') then out = m
          else
            (case single_entry (get_prop m ''content'') of
               Some (contentType, media) \<Rightarrow>
                 out = assign_key (assign_key m ''contentType'' (JStr contentType))
                         ''schema'' (opt_prop media ''schema'')
             | None \<Rightarrow> False)
      | _ \<Rightarrow> False)"

section \<open>Facts about the registry primitives\<close>

text \<open>The definitions a concrete run unfolds.\<close>

lemmas run_defs =
  get_prop_def opt_prop_def read_prop_def write_back_def delete_key_def schemas_of_def
  existsInComponents_def isTheSameSchema_def addToComponents_def
  to_string_def error_message_def error_errors_def http_message_def HTTPError_def
  checkForHTTPErrorsAndThrow_def
  missing_path_message_def checkForMissingPathAndThrow_def on_resolve_error_def
  convert_and_overlay_def dereferenceAndConvert_def createSchema_def
  catch_non_error_def conversion_message_def addModel_def addModelsToOpenAPI_def
  standardModel_def or_empty_def standardiseModels_def newline_def

lemma show_nat_0: "show_nat 0 = ''0''"
  by code_simp

lemma show_nat_1: "show_nat (Suc 0) = ''1''"
  by code_simp

lemma map_of_assign_key:
  "map_of (assign_key ps k v) k' = (if k' = k then Some v else map_of ps k')"
  by (induction ps) auto

lemma assign_key_same: "map_of ps k = Some v \<Longrightarrow> assign_key ps k v = ps"
  by (induction ps) (auto split: if_splits)

lemma get_prop_assign_key:
  "get_prop (assign_key ps k v) k' = (if k' = k then v else get_prop ps k')"
  by (simp add: get_prop_def map_of_assign_key)

lemma schemas_of_addToComponents:
  "schemas_of (addToComponents ''schemas'' v k h) = assign_key (schemas_of h) k v"
  by (simp add: schemas_of_def addToComponents_def map_of_assign_key split: option.splits)

lemma minted_addToComponents: "minted (addToComponents t v k h) = minted h"
  by (simp add: addToComponents_def split: option.splits)

lemma modelReferences_addToComponents:
  "modelReferences (addToComponents t v k h) = modelReferences h"
  by (simp add: addToComponents_def split: option.splits)

lemma models_addToComponents: "models (addToComponents t v k h) = models h"
  by (simp add: addToComponents_def split: option.splits)

lemma addToComponents_same:
  "map_of (schemas_of h) k = Some v \<Longrightarrow> addToComponents ''schemas'' v k h = h"
  by (auto simp: schemas_of_def addToComponents_def assign_key_same split: option.splits)

lemma existsInComponents_schemas_of:
  "existsInComponents h k = truthy (get_prop (schemas_of h) k)"
  by (simp add: existsInComponents_def schemas_of_def get_prop_def split: option.splits)

lemma isTheSameSchema_exists:
  "existsInComponents h k \<Longrightarrow>
   isTheSameSchema C h v k = Inr (isEqual C v (get_prop (schemas_of h) k))"
  by (auto simp: existsInComponents_def isTheSameSchema_def schemas_of_def split: option.splits)

subsection \<open>The loop of createSchema\<close>

text \<open>One step of the loop, read off the registry.\<close>

lemma createSchema_entries_Cons:
  "createSchema_entries C orig ((k, v) # rest) fin h =
     (if truthy (get_prop (schemas_of h) k) \<and> isEqual C v (get_prop (schemas_of h) k)
      then createSchema_entries C orig rest fin h
      else if truthy (get_prop (schemas_of h) k) \<and> k = orig
      then createSchema_entries C orig rest (k @ ''-'' @ uuid C (minted h))
             (addToComponents ''schemas'' v (k @ ''-'' @ uuid C (minted h))
                (h\<lparr>minted := Suc (minted h)\<rparr>))
      else createSchema_entries C orig rest fin (addToComponents ''schemas'' v k h))"
  using isTheSameSchema_exists [of h k C v]
  by (auto simp: existsInComponents_schemas_of Let_def)

lemma createSchema_entries_others:
  "orig \<notin> fst ` set ents \<Longrightarrow>
   \<exists>h'. createSchema_entries C orig ents fin h = (Inr fin, h') \<and> minted h' = minted h \<and>
        modelReferences h' = modelReferences h \<and> models h' = models h \<and>
        (\<forall>k. k \<notin> fst ` set ents \<longrightarrow> map_of (schemas_of h') k = map_of (schemas_of h) k)"
proof (induction ents arbitrary: h)
  case Nil
  then show ?case by simp
next
  case (Cons e ents)
  obtain k v where e: "e = (k, v)" by (cases e)
  from Cons.prems e have ne: "k \<noteq> orig" and rest: "orig \<notin> fst ` set ents" by auto
  let ?h2 = "addToComponents ''schemas'' v k h"
  from Cons.IH [OF rest, of ?h2] obtain h2' where
    a: "createSchema_entries C orig ents fin ?h2 = (Inr fin, h2')" "minted h2' = minted ?h2"
       "modelReferences h2' = modelReferences ?h2" "models h2' = models ?h2"
       "\<forall>k. k \<notin> fst ` set ents \<longrightarrow> map_of (schemas_of h2') k = map_of (schemas_of ?h2) k"
    by blast
  from Cons.IH [OF rest, of h] obtain h1' where
    b: "createSchema_entries C orig ents fin h = (Inr fin, h1')" "minted h1' = minted h"
       "modelReferences h1' = modelReferences h" "models h1' = models h"
       "\<forall>k. k \<notin> fst ` set ents \<longrightarrow> map_of (schemas_of h1') k = map_of (schemas_of h) k"
    by blast
  show ?case
  proof (cases "existsInComponents h k \<and> isEqual C v (get_prop (schemas_of h) k)")
    case True
    then have "createSchema_entries C orig (e # ents) fin h = (Inr fin, h1')"
      using e b(1) by (simp add: createSchema_entries_Cons existsInComponents_schemas_of
          del: createSchema_entries.simps)
    with b show ?thesis using e by auto
  next
    case False
    then have "createSchema_entries C orig (e # ents) fin h = (Inr fin, h2')"
      using e a(1) ne by (auto simp: createSchema_entries_Cons existsInComponents_schemas_of
          simp del: createSchema_entries.simps)
    with a show ?thesis using e
      by (auto simp: minted_addToComponents modelReferences_addToComponents
           models_addToComponents schemas_of_addToComponents map_of_assign_key)
  qed
qed


lemma fresh_neq: "n @ ''-'' @ u \<noteq> n"
  by simp

lemma schemas_of_minted_update [simp]: "schemas_of (h\<lparr>minted := m\<rparr>) = schemas_of h"
  by (simp add: schemas_of_def)

lemma createSchema_entries_primary:
  "distinct (map fst ents) \<Longrightarrow> (n, b) \<in> set ents \<Longrightarrow>
   truthy (get_prop (schemas_of h) n) \<Longrightarrow> \<not> isEqual C b (get_prop (schemas_of h) n) \<Longrightarrow>
   n @ ''-'' @ uuid C (minted h) \<notin> fst ` set ents \<Longrightarrow>
   \<exists>h'. createSchema_entries C n ents fin h = (Inr (n @ ''-'' @ uuid C (minted h)), h') \<and>
        get_prop (schemas_of h') n = get_prop (schemas_of h) n \<and>
        get_prop (schemas_of h') (n @ ''-'' @ uuid C (minted h)) = b \<and>
        minted h' = Suc (minted h) \<and> modelReferences h' = modelReferences h"
proof (induction ents arbitrary: h fin)
  case Nil
  then show ?case by simp
next
  case (Cons e ents)
  obtain k v where e: "e = (k, v)" by (cases e)
  let ?fresh = "n @ ''-'' @ uuid C (minted h)"
  show ?case
  proof (cases "k = n")
    case True
    with Cons.prems e have vb: "v = b" and rest: "n \<notin> fst ` set ents"
      by (auto simp: image_iff)
    let ?h2 = "addToComponents ''schemas'' b ?fresh (h\<lparr>minted := Suc (minted h)\<rparr>)"
    from createSchema_entries_others [OF rest, of C ?fresh ?h2] obtain h' where
      a: "createSchema_entries C n ents ?fresh ?h2 = (Inr ?fresh, h')" "minted h' = minted ?h2"
         "modelReferences h' = modelReferences ?h2"
         "\<forall>k. k \<notin> fst ` set ents \<longrightarrow> map_of (schemas_of h') k = map_of (schemas_of ?h2) k"
      by blast
    have step: "createSchema_entries C n (e # ents) fin h = (Inr ?fresh, h')"
      using e True vb Cons.prems(3,4) a(1)
      by (simp add: createSchema_entries_Cons del: createSchema_entries.simps)
    have k1: "map_of (schemas_of h') n = map_of (schemas_of h) n"
      using a(4) rest by (simp add: schemas_of_addToComponents map_of_assign_key)
    have k2: "map_of (schemas_of h') ?fresh = Some b"
      using a(4) Cons.prems(5) by (simp add: schemas_of_addToComponents map_of_assign_key)
    show ?thesis using step k1 k2 a(2,3)
      by (simp add: get_prop_def minted_addToComponents modelReferences_addToComponents)
  next
    case False
    with Cons.prems e have mem: "(n, b) \<in> set ents" and dist: "distinct (map fst ents)"
      and fr: "?fresh \<notin> fst ` set ents" and kf: "k \<noteq> ?fresh"
      by auto
    let ?h2 = "addToComponents ''schemas'' v k h"
    have same2: "get_prop (schemas_of ?h2) n = get_prop (schemas_of h) n" "minted ?h2 = minted h"
      "modelReferences ?h2 = modelReferences h"
      using False by (simp_all add: schemas_of_addToComponents get_prop_assign_key
          minted_addToComponents modelReferences_addToComponents)
    show ?thesis
    proof (cases "truthy (get_prop (schemas_of h) k) \<and> isEqual C v (get_prop (schemas_of h) k)")
      case True
      then have "createSchema_entries C n (e # ents) fin h = createSchema_entries C n ents fin h"
        using e by (simp add: createSchema_entries_Cons del: createSchema_entries.simps)
      with Cons.IH [OF dist mem Cons.prems(3,4) fr, of fin] show ?thesis by simp
    next
      case nosame: False
      then have "createSchema_entries C n (e # ents) fin h = createSchema_entries C n ents fin ?h2"
        using e False by (auto simp add: createSchema_entries_Cons simp del: createSchema_entries.simps)
      moreover from Cons.IH [of ?h2 fin] dist mem Cons.prems(3,4) fr same2
      have "\<exists>h'. createSchema_entries C n ents fin ?h2 = (Inr ?fresh, h') \<and>
        get_prop (schemas_of h') n = get_prop (schemas_of h) n \<and>
        get_prop (schemas_of h') ?fresh = b \<and>
        minted h' = Suc (minted h) \<and> modelReferences h' = modelReferences h"
        by simp
      ultimately show ?thesis by simp
    qed
  qed
qed

lemma createSchema_entries_modelReferences:
  "modelReferences (snd (createSchema_entries C orig ents fin h)) = modelReferences h"
proof (induction ents arbitrary: fin h)
  case Nil
  then show ?case by simp
next
  case (Cons e ents)
  obtain k v where e: "e = (k, v)" by (cases e)
  show ?case unfolding e
    by (simp add: createSchema_entries_Cons Cons.IH modelReferences_addToComponents
        del: createSchema_entries.simps)
qed

lemma createSchema_entries_falsy:
  "distinct (map fst ents) \<Longrightarrow> (n, v) \<in> set ents \<Longrightarrow>
   \<not> truthy (get_prop (schemas_of h) n) \<Longrightarrow>
   \<exists>h'. createSchema_entries C n ents fin h = (Inr fin, h') \<and>
        map_of (schemas_of h') n = Some v \<and> minted h' = minted h"
proof (induction ents arbitrary: h)
  case Nil
  then show ?case by simp
next
  case (Cons e ents)
  obtain k w where e: "e = (k, w)" by (cases e)
  show ?case
  proof (cases "k = n")
    case True
    with Cons.prems e have wv: "w = v" and rest: "n \<notin> fst ` set ents"
      by (auto simp: image_iff)
    let ?h2 = "addToComponents ''schemas'' v n h"
    from createSchema_entries_others [OF rest, of C fin ?h2] obtain h' where
      a: "createSchema_entries C n ents fin ?h2 = (Inr fin, h')" "minted h' = minted ?h2"
         "\<forall>k. k \<notin> fst ` set ents \<longrightarrow> map_of (schemas_of h') k = map_of (schemas_of ?h2) k"
      by blast
    have "createSchema_entries C n (e # ents) fin h = (Inr fin, h')"
      using e True wv Cons.prems(3) a(1)
      by (simp add: createSchema_entries_Cons del: createSchema_entries.simps)
    moreover have "map_of (schemas_of h') n = Some v"
      using a(3) rest by (simp add: schemas_of_addToComponents map_of_assign_key)
    ultimately show ?thesis using a(2) by (simp add: minted_addToComponents)
  next
    case False
    with Cons.prems e have mem: "(n, v) \<in> set ents" and dist: "distinct (map fst ents)"
      by auto
    let ?h2 = "addToComponents ''schemas'' w k h"
    have same2: "\<not> truthy (get_prop (schemas_of ?h2) n)" "minted ?h2 = minted h"
      using False Cons.prems(3)
      by (simp_all add: schemas_of_addToComponents get_prop_assign_key minted_addToComponents)
    show ?thesis
    proof (cases "truthy (get_prop (schemas_of h) k) \<and> isEqual C w (get_prop (schemas_of h) k)")
      case True
      then have "createSchema_entries C n (e # ents) fin h = createSchema_entries C n ents fin h"
        using e by (simp add: createSchema_entries_Cons del: createSchema_entries.simps)
      with Cons.IH [OF dist mem Cons.prems(3)] show ?thesis by simp
    next
      case nosame: False
      then have "createSchema_entries C n (e # ents) fin h = createSchema_entries C n ents fin ?h2"
        using e False by (auto simp add: createSchema_entries_Cons simp del: createSchema_entries.simps)
      with Cons.IH [OF dist mem same2(1)] same2(2) show ?thesis by simp
    qed
  qed
qed

text \<open>A second pass over entries that are settled changes nothing; a pass that
  keeps the requested name leaves every entry settled.\<close>

lemma createSchema_entries_settled:
  assumes refl: "\<And>v. isEqual C v v"
  shows "list_all (settled C h) ents \<Longrightarrow> createSchema_entries C orig ents fin h = (Inr fin, h)"
proof (induction ents)
  case Nil
  then show ?case by simp
next
  case (Cons e ents)
  obtain k v where e: "e = (k, v)" by (cases e)
  from Cons.prems have hd: "settled C h (k, v)" and tl: "list_all (settled C h) ents"
    using e by auto
  have "createSchema_entries C orig ((k, v) # ents) fin h = createSchema_entries C orig ents fin h"
  proof (cases "truthy (get_prop (schemas_of h) k)")
    case True
    have "isEqual C v (get_prop (schemas_of h) k)"
      using hd refl by (auto simp: settled_def get_prop_def)
    with True show ?thesis
      by (simp add: createSchema_entries_Cons del: createSchema_entries.simps)
  next
    case False
    with hd have "map_of (schemas_of h) k = Some v" by (simp add: settled_def)
    then have "addToComponents ''schemas'' v k h = h" by (rule addToComponents_same)
    with False show ?thesis
      by (simp add: createSchema_entries_Cons del: createSchema_entries.simps)
  qed
  with Cons.IH [OF tl] e show ?case by simp
qed

lemma createSchema_entries_unrenamed:
  "createSchema_entries C orig ents orig h = (Inr orig, h') \<Longrightarrow> distinct (map fst ents) \<Longrightarrow>
   (\<forall>k. k \<notin> fst ` set ents \<longrightarrow> map_of (schemas_of h') k = map_of (schemas_of h) k) \<and>
   list_all (settled C h') ents"
proof (induction ents arbitrary: h)
  case Nil
  then show ?case by simp
next
  case (Cons e ents)
  obtain k v where e: "e = (k, v)" by (cases e)
  from Cons.prems e have knot: "k \<notin> fst ` set ents" and dist: "distinct (map fst ents)"
    by (auto simp: image_iff)
  show ?case
  proof (cases "truthy (get_prop (schemas_of h) k) \<and> isEqual C v (get_prop (schemas_of h) k)")
    case True
    then have "createSchema_entries C orig ents orig h = (Inr orig, h')"
      using Cons.prems(1) e by (simp add: createSchema_entries_Cons del: createSchema_entries.simps)
    from Cons.IH [OF this dist]
    have ih: "\<forall>k. k \<notin> fst ` set ents \<longrightarrow> map_of (schemas_of h') k = map_of (schemas_of h) k"
      "list_all (settled C h') ents" by auto
    from ih(1) knot have "map_of (schemas_of h') k = map_of (schemas_of h) k" by blast
    with True have "settled C h' (k, v)" by (simp add: settled_def get_prop_def)
    with ih e show ?thesis by simp
  next
    case nosame: False
    show ?thesis
    proof (cases "truthy (get_prop (schemas_of h) k) \<and> k = orig")
      case True
      let ?fresh = "k @ ''-'' @ uuid C (minted h)"
      let ?h2 = "addToComponents ''schemas'' v ?fresh (h\<lparr>minted := Suc (minted h)\<rparr>)"
      from True knot have "orig \<notin> fst ` set ents" by simp
      from createSchema_entries_others [OF this, of C ?fresh ?h2] obtain h2' where
        "createSchema_entries C orig ents ?fresh ?h2 = (Inr ?fresh, h2')" by blast
      moreover have "createSchema_entries C orig (e # ents) orig h =
                     createSchema_entries C orig ents ?fresh ?h2"
        using e nosame True
        by (auto simp add: createSchema_entries_Cons simp del: createSchema_entries.simps)
      ultimately have "?fresh = orig" using Cons.prems(1) by simp
      with True show ?thesis by simp
    next
      case False
      let ?h2 = "addToComponents ''schemas'' v k h"
      have "createSchema_entries C orig ents orig ?h2 = (Inr orig, h')"
        using Cons.prems(1) e nosame False
        by (simp add: createSchema_entries_Cons del: createSchema_entries.simps)
      from Cons.IH [OF this dist]
      have ih: "\<forall>k. k \<notin> fst ` set ents \<longrightarrow> map_of (schemas_of h') k = map_of (schemas_of ?h2) k"
        "list_all (settled C h') ents" by auto
      from ih(1) knot have "map_of (schemas_of h') k = Some v"
        by (simp add: schemas_of_addToComponents map_of_assign_key)
      then have "settled C h' (k, v)" by (simp add: settled_def)
      moreover have "\<forall>k'. k' \<notin> fst ` set (e # ents) \<longrightarrow>
                       map_of (schemas_of h') k' = map_of (schemas_of h) k'"
        using ih(1) e by (simp add: schemas_of_addToComponents map_of_assign_key)
      ultimately show ?thesis using ih(2) e by simp
    qed
  qed
qed

subsection \<open>The loop of addModelsToOpenAPI\<close>

lemma schemas_of_modelReferences_update [simp]:
  "schemas_of (h\<lparr>modelReferences := m\<rparr>) = schemas_of h"
  by (simp add: schemas_of_def)


lemma addModel_entries_models: "models (addModel_entries nm ents h) = models h"
  by (induction ents arbitrary: h) (auto simp: models_addToComponents)








subsection \<open>Error classification\<close>

lemma HTTPError_each_find:
  "HTTPError_each C errs model =
     (case find http_marked (map (error_message C) errs) of
        Some m \<Rightarrow> Inl (JsError (http_message C model m) None)
      | None \<Rightarrow> Inr ())"
  by (induction errs) (simp_all add: HTTPError_def http_marked_def)

lemma checkForHTTPErrorsAndThrow_find:
  "checkForHTTPErrorsAndThrow C err model =
     (case find http_marked (messages_checked C err) of
        Some m \<Rightarrow> Inl (JsError (http_message C model m) None)
      | None \<Rightarrow> Inr ())"
  by (cases "error_errors err")
     (simp_all add: checkForHTTPErrorsAndThrow_def messages_checked_def HTTPError_def
        HTTPError_each_find http_marked_def)

subsection \<open>Patching a document\<close>

lemma object_assign_outside:
  "k \<notin> fst ` set src \<Longrightarrow> map_of (object_assign target src) k = map_of target k"
  by (induction src arbitrary: target) (auto simp: map_of_assign_key)

lemma object_assign_inside:
  "distinct (map fst src) \<Longrightarrow> (k, v) \<in> set src \<Longrightarrow> map_of (object_assign target src) k = Some v"
proof (induction src arbitrary: target)
  case Nil
  then show ?case by simp
next
  case (Cons p src)
  obtain k' v' where p: "p = (k', v')" by (cases p)
  show ?case
  proof (cases "k' = k")
    case True
    with Cons.prems p have "v' = v" "k \<notin> fst ` set src" by (auto simp: image_iff)
    then show ?thesis using p True by (simp add: object_assign_outside map_of_assign_key)
  next
    case False
    with Cons.prems p have "(k, v) \<in> set src" "distinct (map fst src)" by auto
    then show ?thesis using p Cons.IH by simp
  qed
qed

lemma map_of_delete_key:
  "map_of (delete_key ps k) k' = (if k' = k then None else map_of ps k')"
  by (induction ps) (auto simp: delete_key_def)

subsection \<open>Normalising\<close>

lemma single_entry_Some: "single_entry v = Some p \<Longrightarrow> v = JObj [p]"
  by (induction v rule: single_entry.induct) simp_all



text \<open>What the relation of claim C8 says of an entry without a schema, property by
  property.\<close>

lemma normalised_reads:
  "normalised (JObj m) out \<Longrightarrow> \<not> truthy (get_prop m ''schema'') \<Longrightarrow>
   \<exists>contentType media.
     get_prop m ''content'' = JObj [(contentType, media)] \<and>
     get_prop out ''contentType'' = JStr contentType \<and>
     get_prop out ''schema'' = opt_prop media ''schema'' \<and>
     (\<forall>k. k \<noteq> ''contentType'' \<longrightarrow> k \<noteq> ''schema'' \<longrightarrow> get_prop out k = get_prop m k)"
  by (auto simp: normalised_def get_prop_assign_key split: option.splits
      dest: single_entry_Some)

section \<open>Claims\<close>







text \<open>
  Claim C3. In \<^verbatim>\<open>createSchema\<close>, when the registry holds \<^verbatim>\<open>Foo = a\<close> and the request for
  the name \<^verbatim>\<open>Foo\<close> converts to a primary entry \<^verbatim>\<open>Foo = b\<close> that the equality test tells
  apart from \<open>a\<close>, the registry still maps \<^verbatim>\<open>Foo\<close> to \<open>a\<close>, a new entry under the suffixed
  name \<^verbatim>\<open>Foo-<uuid>\<close> maps to \<open>b\<close>, and the returned pointer names the suffixed entry. The
  converted set is an object (its keys differ pairwise) and the minted name is not one of
  its keys.
\<close>

theorem createSchema_collision_on_primary:
  assumes payload: "schema \<noteq> JUndefined"
    and conv: "dereferenceAndConvert C fuel schema (JStr n)
                 [(''name'', JStr n), (''schema'', schema)] = Some (Inr convertedSchemas)"
    and shape: "read_prop convertedSchemas ''schemas'' = Inr (JObj ents)"
    and keys: "distinct (map fst ents)"
    and primary: "(n, b) \<in> set ents"
    and existing: "get_prop (schemas_of h) n = a" "truthy a"
    and differs: "\<not> isEqual C b a"
    and fresh: "n @ ''-'' @ uuid C (minted h) \<notin> fst ` set ents"
  shows "\<exists>h'. createSchema C fuel h n schema =
               Some (Inr (''#/components/schemas/'' @ n @ ''-'' @ uuid C (minted h)), h') \<and>
             get_prop (schemas_of h') n = a \<and>
             get_prop (schemas_of h') (n @ ''-'' @ uuid C (minted h)) = b"
proof -
  from createSchema_entries_primary [OF keys primary, of h C n] existing differs fresh
  obtain h' where
    run: "createSchema_entries C n ents n h = (Inr (n @ ''-'' @ uuid C (minted h)), h')"
    and kept: "get_prop (schemas_of h') n = a"
    and added: "get_prop (schemas_of h') (n @ ''-'' @ uuid C (minted h)) = b"
    by auto
  have "createSchema C fuel h n schema =
          Some (Inr (''#/components/schemas/'' @ n @ ''-'' @ uuid C (minted h)), h')"
    using payload conv shape run by (simp add: createSchema_def Let_def)
  with kept added show ?thesis by blast
qed

theorem createSchema_collision_on_primary_witness:
  "number_schema \<noteq> JUndefined \<and>
   get_prop (schemas_of foo_handler) ''Foo'' = string_schema \<and>
   \<not> isEqual sample number_schema string_schema \<and>
   (\<exists>h'. createSchema sample 1 foo_handler ''Foo'' number_schema =
            Some (Inr ''#/components/schemas/Foo-u0'', h') \<and>
          get_prop (schemas_of h') ''Foo'' = string_schema \<and>
          get_prop (schemas_of h') ''Foo-u0'' = number_schema)"
proof -
  have conv: "dereferenceAndConvert sample 1 number_schema (JStr ''Foo'')
                [(''name'', JStr ''Foo''), (''schema'', number_schema)] =
              Some (Inr (JObj [(''schemas'', JObj [(''Foo'', number_schema)])]))"
    by (simp add: run_defs sample_def number_schema_def)
  have shape: "read_prop (JObj [(''schemas'', JObj [(''Foo'', number_schema)])]) ''schemas'' =
               Inr (JObj [(''Foo'', number_schema)])"
    by (simp add: run_defs)
  have existing: "get_prop (schemas_of foo_handler) ''Foo'' = string_schema"
    by (simp add: run_defs foo_handler_def)
  have u0: "uuid sample (minted foo_handler) = ''u0''"
    by (simp add: sample_def foo_handler_def show_nat_0)
  have differs: "\<not> isEqual sample number_schema string_schema"
    by (simp add: sample_def number_schema_def string_schema_def)
  have payload: "number_schema \<noteq> JUndefined"
    by (simp add: number_schema_def)
  from createSchema_collision_on_primary [OF payload conv shape _ _ existing _ differs]
  show ?thesis using payload existing differs
    by (simp add: u0 string_schema_def)
qed

text \<open>
  The bulk operation checks the shape of the converted result: when it is a value other than
  \<^verbatim>\<open>null\<close> and \<^verbatim>\<open>undefined\<close> whose \<^verbatim>\<open>schemas\<close> is not an object (it is missing, an array,
  \<^verbatim>\<open>null\<close> or a primitive), the operation throws the error whose message holds the serialised
  model and the serialised converted result, the remaining models are not processed, and the
  handler is as it was before this model.
\<close>

lemma addModels_conversion_shape_error:
  assumes conv: "dereferenceAndConvert C fuel (get_prop model ''schema'')
                   (get_prop model ''name'') model = Some (Inr convertedSchemas)"
    and some: "\<not> nullish convertedSchemas"
    and malformed: "\<And>ents. opt_prop convertedSchemas ''schemas'' \<noteq> JObj ents"
  shows "addModels C fuel (model # rest) h =
           Some (Inl (Err (JsError
             (''There was an error converting the '' @ to_string C (get_prop model ''name'') @
              '' schema. Model received looks like: '' @ newline @ newline @
              stringify C (JObj model) @ ''.  The convereted schema looks like '' @
              newline @ newline @ stringify C convertedSchemas) None)), h)"
proof -
  have "addModel C fuel model h =
          Some (Inl (Err (JsError (conversion_message C model convertedSchemas) None)), h)"
  proof (cases "opt_prop convertedSchemas ''schemas''")
    case (JObj ents)
    with malformed show ?thesis by blast
  qed (use conv some in \<open>simp_all add: addModel_def Let_def catch_non_error_def read_prop_def\<close>)
  then show ?thesis by (simp add: conversion_message_def)
qed

lemma addModels_conversion_shape_error_example:
  "\<not> nullish (JObj [(''schemas'', JArr [number_schema])]) \<and>
   opt_prop (JObj [(''schemas'', JArr [number_schema])]) ''schemas'' = JArr [number_schema] \<and>
   addModels array_schemas 1 [foo_model] foo_handler =
     Some (Inl (Err (JsError
       (''There was an error converting the Foo schema. Model received looks like: '' @
        newline @ newline @ ''<json>.  The convereted schema looks like '' @
        newline @ newline @ ''<json>'') None)), foo_handler)"
proof -
  have conv: "dereferenceAndConvert array_schemas 1 (get_prop foo_model ''schema'')
                (get_prop foo_model ''name'') foo_model =
              Some (Inr (JObj [(''schemas'', JArr [number_schema])]))"
    by (simp add: run_defs array_schemas_def sample_def number_schema_def foo_model_def)
  have some: "\<not> nullish (JObj [(''schemas'', JArr [number_schema])])"
    by simp
  have field: "opt_prop (JObj [(''schemas'', JArr [number_schema])]) ''schemas'' =
               JArr [number_schema]"
    by (simp add: run_defs)
  have malformed: "\<And>ents. opt_prop (JObj [(''schemas'', JArr [number_schema])]) ''schemas'' \<noteq>
                     JObj ents"
    by (simp add: field)
  from addModels_conversion_shape_error [OF conv some malformed, of "[]" foo_handler]
  show ?thesis using some field
    by (simp add: array_schemas_def sample_def to_string_def get_prop_def foo_model_def)
qed

text \<open>
  Claim C4. On both operations a converted result whose \<^verbatim>\<open>schemas\<close> is missing, an array,
  \<^verbatim>\<open>null\<close> or not an object is to raise the error that embeds the serialised model and the
  serialised converted result, and the model is to contribute no registry entry. The bulk
  operation does so; \<^verbatim>\<open>createSchema\<close> hands \<^verbatim>\<open>convertedSchemas.schemas\<close> to
  \<^verbatim>\<open>Object.entries\<close> unchecked. With \<^verbatim>\<open>schemas\<close> missing it throws the engine's \<^verbatim>\<open>TypeError\<close>
  of \<^verbatim>\<open>Object.entries(undefined)\<close>, which is not that error; with \<^verbatim>\<open>schemas\<close> an array it
  throws nothing, files the element under its index \<^verbatim>\<open>0\<close> and returns a pointer to
  \<^verbatim>\<open>Foo\<close>, a name the registry does not hold.
\<close>

theorem createSchema_unchecked_shape:
  "createSchema no_schemas 1 empty_handler ''Foo'' number_schema =
     Some (Inl (Err (TypeErr JUndefined ''Object.entries'')), empty_handler) \<and>
   TypeErr JUndefined ''Object.entries'' \<noteq>
     JsError (conversion_message no_schemas [(''name'', JStr ''Foo''), (''schema'', number_schema)]
                (JObj [])) None \<and>
   createSchema array_schemas 1 empty_handler ''Foo'' number_schema =
     Some (Inr ''#/components/schemas/Foo'', index_handler) \<and>
   schemas_of index_handler = [(''0'', number_schema)] \<and>
   map_of (schemas_of index_handler) ''Foo'' = None"
  by (simp add: run_defs Let_def no_schemas_def array_schemas_def sample_def number_schema_def
      empty_handler_def index_handler_def show_nat_0)

text \<open>
  Claim C5 (as the code has it). When the resolution of a model's schema fails, the messages
  checked for \<^verbatim>\<open>HTTP ERROR\<close> are the sub-errors' when the error carries a sub-error list, and
  the error's own message only when it carries none. If one of the checked messages contains
  \<^verbatim>\<open>HTTP ERROR\<close>, a new error is thrown whose message names the model and holds the first
  such message and the serialised model. If none does and the error's own message is exactly
  the missing-path message, the error itself is rethrown. Every other failure is swallowed:
  the conversion runs on the unresolved schema.
\<close>

theorem resolve_error_classification:
  assumes failed: "dereferenceSchema C fuel schema = Some (Inl err)"
  shows "(\<forall>m. find http_marked (messages_checked C err) = Some m \<longrightarrow>
            dereferenceAndConvert C fuel schema name model =
              Some (Inl (Err (JsError
                (''There was an error dereferencing '' @ to_string C (get_prop model ''name'') @
                 '' schema.  '' @ newline @ newline @ '' dereferencing message: '' @ m @
                 '' '' @ newline @ newline @ '' Model received: '' @ stringify C (JObj model))
                None)))) \<and>
         (find http_marked (messages_checked C err) = None \<and>
          error_message C err = ''Expected a file path, URL, or object. Got undefined'' \<longrightarrow>
            dereferenceAndConvert C fuel schema name model = Some (Inl (Err err))) \<and>
         (find http_marked (messages_checked C err) = None \<and>
          error_message C err \<noteq> ''Expected a file path, URL, or object. Got undefined'' \<longrightarrow>
            dereferenceAndConvert C fuel schema name model =
              Some (convert_and_overlay C schema name model))"
  using failed
  by (simp add: dereferenceAndConvert_def on_resolve_error_def checkForHTTPErrorsAndThrow_find
      checkForMissingPathAndThrow_def http_message_def missing_path_message_def)

theorem resolve_error_classification_witness:
  "dereferenceAndConvert (rejecting (JsError ''HTTP ERROR 404'' None)) 1 number_schema
     (JStr ''Foo'') foo_model =
     Some (Inl (Err (JsError
       (''There was an error dereferencing Foo schema.  '' @ newline @ newline @
        '' dereferencing message: HTTP ERROR 404 '' @ newline @ newline @
        '' Model received: <json>'') None))) \<and>
   dereferenceAndConvert
     (rejecting (JsError ''2 errors'' (Some [JsError ''ENOENT'' None, JsError ''HTTP ERROR 500'' None])))
     1 number_schema (JStr ''Foo'') foo_model =
     Some (Inl (Err (JsError
       (''There was an error dereferencing Foo schema.  '' @ newline @ newline @
        '' dereferencing message: HTTP ERROR 500 '' @ newline @ newline @
        '' Model received: <json>'') None))) \<and>
   dereferenceAndConvert (rejecting (TypeErr JUndefined ''HTTP ERROR'')) 1 number_schema
     (JStr ''Foo'') foo_model =
     Some (Inl (Err (JsError
       (''There was an error dereferencing Foo schema.  '' @ newline @ newline @
        '' dereferencing message: Cannot read properties of undefined, reading HTTP ERROR '' @
        newline @ newline @ '' Model received: <json>'') None))) \<and>
   dereferenceAndConvert
     (rejecting (JsError ''Expected a file path, URL, or object. Got undefined'' None))
     1 JUndefined (JStr ''Foo'') foo_model =
     Some (Inl (Err (JsError ''Expected a file path, URL, or object. Got undefined'' None))) \<and>
   dereferenceAndConvert (rejecting (JsError ''timeout'' None)) 1 number_schema
     (JStr ''Foo'') foo_model =
     Some (Inr (JObj [(''schemas'', JObj [(''Foo'', number_schema)])]))"
proof -
  have failed: "\<And>e d. dereferenceSchema (rejecting e) 1 d = Some (Inl e)"
    by (simp add: rejecting_def)
  have texts: "\<And>e. to_string (rejecting e) (get_prop foo_model ''name'') = ''Foo''"
    "\<And>e. stringify (rejecting e) (JObj foo_model) = ''<json>''"
    by (simp_all add: rejecting_def sample_def to_string_def get_prop_def foo_model_def)
  have conv: "\<And>e. convert_and_overlay (rejecting e) number_schema (JStr ''Foo'') foo_model =
                Inr (JObj [(''schemas'', JObj [(''Foo'', number_schema)])])"
    by (simp add: convert_and_overlay_def rejecting_def sample_def foo_model_def)
  have own: "\<And>e m. error_message (rejecting e) (JsError m None) = m"
    by (simp add: error_message_def)
  have m1: "\<And>e. find http_marked (messages_checked (rejecting e) (JsError ''HTTP ERROR 404'' None)) =
            Some ''HTTP ERROR 404''"
    by (simp add: messages_checked_def error_errors_def error_message_def http_marked_def)
  have m2: "\<And>e. find http_marked (messages_checked (rejecting e)
              (JsError ''2 errors'' (Some [JsError ''ENOENT'' None, JsError ''HTTP ERROR 500'' None]))) =
            Some ''HTTP ERROR 500''"
    by (simp add: messages_checked_def error_errors_def error_message_def http_marked_def)
  have m3: "\<And>e. find http_marked (messages_checked (rejecting e)
              (JsError ''Expected a file path, URL, or object. Got undefined'' None)) = None"
    by (simp add: messages_checked_def error_errors_def error_message_def http_marked_def)
  have m4: "\<And>e. find http_marked (messages_checked (rejecting e) (JsError ''timeout'' None)) = None"
    by (simp add: messages_checked_def error_errors_def error_message_def http_marked_def)
  have m5: "\<And>e. find http_marked (messages_checked (rejecting e) (TypeErr JUndefined ''HTTP ERROR'')) =
            Some ''Cannot read properties of undefined, reading HTTP ERROR''"
    by (simp add: messages_checked_def error_errors_def error_message_def http_marked_def
        rejecting_def sample_def)
  note c1 = resolve_error_classification [OF failed, THEN conjunct1, rule_format, OF m1]
  note c2 = resolve_error_classification [OF failed, THEN conjunct1, rule_format, OF m2]
  note c5 = resolve_error_classification [OF failed, THEN conjunct1, rule_format, OF m5]
  note c3 = resolve_error_classification
              [OF failed, THEN conjunct2, THEN conjunct1, rule_format, OF conjI, OF m3]
  note c4 = resolve_error_classification
              [OF failed, THEN conjunct2, THEN conjunct2, rule_format, OF conjI, OF m4]
  show ?thesis
    using c1 [of number_schema "JStr ''Foo''" foo_model]
      c2 [of number_schema "JStr ''Foo''" foo_model]
      c5 [of number_schema "JStr ''Foo''" foo_model]
      c3 [of JUndefined "JStr ''Foo''" foo_model]
      c4 [of number_schema "JStr ''Foo''" foo_model]
    by (simp add: texts conv own)
qed

text \<open>An error whose own message contains \<^verbatim>\<open>HTTP ERROR\<close> and which carries a sub-error list
  without the marker: the resolution fails with it, no error is thrown, and the conversion
  runs on the unresolved schema.\<close>

theorem resolve_error_own_message_counterexample:
  "str_includes ''HTTP ERROR 500'' ''HTTP ERROR'' \<and>
   dereferenceSchema (rejecting (JsError ''HTTP ERROR 500'' (Some [JsError ''ENOENT'' None]))) 1
     number_schema =
     Some (Inl (JsError ''HTTP ERROR 500'' (Some [JsError ''ENOENT'' None]))) \<and>
   dereferenceAndConvert (rejecting (JsError ''HTTP ERROR 500'' (Some [JsError ''ENOENT'' None]))) 1
     number_schema (JStr ''Foo'') foo_model =
     Some (Inr (JObj [(''schemas'', JObj [(''Foo'', number_schema)])]))"
  by (simp add: run_defs rejecting_def sample_def foo_model_def number_schema_def)

text \<open>
  Claim C6 (as the code has it). Let the dereferenced result be an object with the root
  \<^verbatim>\<open>$ref === "#"\<close>, let the bundled document's \<^verbatim>\<open>$ref\<close> be a path, and let the result's
  \<^verbatim>\<open>definitions\<close> hold an object fragment under that path's last segment. The patched
  document is the result with the fragment's properties assigned onto it and \<^verbatim>\<open>$ref\<close>
  deleted: it has no \<^verbatim>\<open>$ref\<close>, has every property of the fragment, and keeps the result's
  other properties. When the pass over the patched document (bundle, then dereference)
  yields no root self-reference, \<^verbatim>\<open>__dereferenceSchema\<close> makes exactly one recovery pass
  (one pass of fuel does not suffice, two or more do) and returns what that pass yields,
  which is the patched document itself when the parser leaves it as it is.
\<close>

theorem dereferenceSchema_recovers_once:
  assumes bundled: "ref_bundle C schema = Inr bundledSchema"
    and dereferenced: "ref_dereference C bundledSchema = Inr (JObj d)"
    and self_ref: "get_prop d ''$ref'' = JStr ''#''"
    and old_ref: "read_prop bundledSchema ''$ref'' = Inr (JStr oldRef)"
    and definitions: "get_prop d ''definitions'' = JObj defs"
    and fragment: "get_prop defs (last (str_split CHR ''/'' oldRef)) = JObj fragment"
    and keys: "distinct (map fst fragment)"
    and second_bundle: "ref_bundle C (JObj (delete_key (object_assign d fragment) ''$ref'')) =
                          Inr bundledAgain"
    and second_dereference: "ref_dereference C bundledAgain = Inr result"
    and no_self_ref: "opt_prop result ''$ref'' \<noteq> JStr ''#''"
  shows "dereferenceSchema C (Suc 0) schema = None \<and>
         (\<forall>fuel. dereferenceSchema C (Suc (Suc fuel)) schema = Some (Inr result)) \<and>
         (bundledAgain = JObj (delete_key (object_assign d fragment) ''$ref'') \<and>
          ref_dereference C bundledAgain = Inr bundledAgain \<longrightarrow>
            result = JObj (delete_key (object_assign d fragment) ''$ref'')) \<and>
         get_prop (delete_key (object_assign d fragment) ''$ref'') ''$ref'' = JUndefined \<and>
         (\<forall>(k, v) \<in> set fragment.
            k \<noteq> ''$ref'' \<longrightarrow> get_prop (delete_key (object_assign d fragment) ''$ref'') k = v) \<and>
         (\<forall>k. k \<notin> fst ` set fragment \<longrightarrow> k \<noteq> ''$ref'' \<longrightarrow>
            get_prop (delete_key (object_assign d fragment) ''$ref'') k = get_prop d k)"
proof -
  let ?patched = "delete_key (object_assign d fragment) ''$ref''"
  have no_ref: "get_prop ?patched ''$ref'' = JUndefined"
    by (simp add: get_prop_def map_of_delete_key)
  have second: "\<And>fuel. dereferenceSchema C (Suc fuel) (JObj ?patched) = Some (Inr result)"
    using second_bundle second_dereference no_self_ref
    by (cases result) (simp_all add: opt_prop_def)
  have step: "\<And>fuel. dereferenceSchema C (Suc fuel) schema = dereferenceSchema C fuel (JObj ?patched)"
    using bundled dereferenced self_ref old_ref definitions fragment
    by (simp add: read_prop_def opt_prop_def)
  have unchanged: "bundledAgain = JObj ?patched \<and> ref_dereference C bundledAgain = Inr bundledAgain \<longrightarrow>
                   result = JObj ?patched"
    using second_dereference by auto
  have merged: "\<forall>(k, v) \<in> set fragment. k \<noteq> ''$ref'' \<longrightarrow> get_prop ?patched k = v"
    using keys
    by (auto simp: get_prop_def map_of_delete_key object_assign_inside)
  have kept: "\<forall>k. k \<notin> fst ` set fragment \<longrightarrow> k \<noteq> ''$ref'' \<longrightarrow> get_prop ?patched k = get_prop d k"
    by (simp add: get_prop_def map_of_delete_key object_assign_outside)
  from step [of 0] step second have "dereferenceSchema C (Suc 0) schema = None"
    and "\<forall>fuel. dereferenceSchema C (Suc (Suc fuel)) schema = Some (Inr result)"
    by simp_all
  with unchanged no_ref merged kept show ?thesis
    by blast
qed

theorem dereferenceSchema_recovers_once_witness:
  "ref_dereference nested_parser nested_bundled = Inr (JObj nested_self_ref) \<and>
   get_prop nested_self_ref ''$ref'' = JStr ''#'' \<and>
   opt_prop nested_resolved ''$ref'' \<noteq> JStr ''#'' \<and>
   dereferenceSchema nested_parser (Suc 0) path_schema = None \<and>
   dereferenceSchema nested_parser (Suc (Suc 0)) path_schema = Some (Inr nested_resolved) \<and>
   dereferenceSchema self_ref_parser (Suc 0) path_schema = None \<and>
   dereferenceSchema self_ref_parser (Suc (Suc 0)) path_schema = Some (Inr recovered_doc) \<and>
   opt_prop recovered_doc ''$ref'' = JUndefined \<and>
   opt_prop recovered_doc ''type'' = JStr ''object''"
proof -
  have bundled: "ref_bundle self_ref_parser path_schema = Inr bundled_doc"
    by (simp add: self_ref_parser_def)
  have dereferenced: "ref_dereference self_ref_parser bundled_doc = Inr (JObj self_ref_doc)"
    by (simp add: self_ref_parser_def)
  have self_ref: "get_prop self_ref_doc ''$ref'' = JStr ''#''"
    by (simp add: get_prop_def self_ref_doc_def)
  have old_ref: "read_prop bundled_doc ''$ref'' = Inr (JStr ''#/definitions/Foo'')"
    by (simp add: run_defs bundled_doc_def)
  have definitions: "get_prop self_ref_doc ''definitions'' =
                     JObj [(''Foo'', JObj [(''type'', JStr ''object'')])]"
    by (simp add: get_prop_def self_ref_doc_def)
  have fragment: "get_prop [(''Foo'', JObj [(''type'', JStr ''object'')])]
                    (last (str_split CHR ''/'' ''#/definitions/Foo'')) =
                  JObj [(''type'', JStr ''object'')]"
    by (simp add: get_prop_def)
  have keys: "distinct (map fst [(''type'', JStr ''object'')])"
    by simp
  have patched: "JObj (delete_key (object_assign self_ref_doc [(''type'', JStr ''object'')])
                   ''$ref'') = recovered_doc"
    by (simp add: delete_key_def self_ref_doc_def recovered_doc_def)
  have second_bundle: "ref_bundle self_ref_parser recovered_doc = Inr recovered_doc"
    by (simp add: self_ref_parser_def recovered_doc_def path_schema_def)
  have second_dereference: "ref_dereference self_ref_parser recovered_doc = Inr recovered_doc"
    by (simp add: self_ref_parser_def recovered_doc_def bundled_doc_def)
  have no_self_ref: "opt_prop recovered_doc ''$ref'' \<noteq> JStr ''#''"
    by (simp add: run_defs recovered_doc_def)
  note plain = dereferenceSchema_recovers_once
    [OF bundled dereferenced self_ref old_ref definitions fragment keys
        second_bundle [folded patched] second_dereference [folded patched]
        no_self_ref [folded patched], unfolded patched]
  from plain have p1: "dereferenceSchema self_ref_parser (Suc 0) path_schema = None"
    and p2: "dereferenceSchema self_ref_parser (Suc (Suc 0)) path_schema = Some (Inr recovered_doc)"
    by blast+
  have p3: "opt_prop recovered_doc ''$ref'' = JUndefined"
    "opt_prop recovered_doc ''type'' = JStr ''object''"
    by (simp_all add: run_defs recovered_doc_def)
  have n_bundled: "ref_bundle nested_parser path_schema = Inr nested_bundled"
    by (simp add: nested_parser_def)
  have n_dereferenced: "ref_dereference nested_parser nested_bundled = Inr (JObj nested_self_ref)"
    by (simp add: nested_parser_def)
  have n_self_ref: "get_prop nested_self_ref ''$ref'' = JStr ''#''"
    by (simp add: get_prop_def nested_self_ref_def)
  have n_old_ref: "read_prop nested_bundled ''$ref'' = Inr (JStr ''#/definitions/Foo'')"
    by (simp add: run_defs nested_bundled_def)
  have n_definitions: "get_prop nested_self_ref ''definitions'' =
                         JObj [(''Foo'', JObj [(''items'', JObj [(''$ref'', JStr ''#/definitions/Id'')])]),
                               (''Id'', JObj [(''type'', JStr ''string'')])]"
    by (simp add: get_prop_def nested_self_ref_def nested_definitions_def)
  have n_fragment: "get_prop [(''Foo'', JObj [(''items'', JObj [(''$ref'', JStr ''#/definitions/Id'')])]),
                              (''Id'', JObj [(''type'', JStr ''string'')])]
                      (last (str_split CHR ''/'' ''#/definitions/Foo'')) =
                    JObj [(''items'', JObj [(''$ref'', JStr ''#/definitions/Id'')])]"
    by (simp add: get_prop_def)
  have n_keys: "distinct (map fst [(''items'', JObj [(''$ref'', JStr ''#/definitions/Id'')])])"
    by simp
  have n_patched: "JObj (delete_key (object_assign nested_self_ref
                     [(''items'', JObj [(''$ref'', JStr ''#/definitions/Id'')])]) ''$ref'') =
                   nested_patched"
    by (simp add: delete_key_def nested_self_ref_def nested_patched_def)
  have n_second_bundle: "ref_bundle nested_parser nested_patched = Inr nested_patched"
    by (simp add: nested_parser_def nested_patched_def path_schema_def)
  have n_second_dereference: "ref_dereference nested_parser nested_patched = Inr nested_resolved"
    by (simp add: nested_parser_def nested_patched_def nested_bundled_def)
  have n_no_self_ref: "opt_prop nested_resolved ''$ref'' \<noteq> JStr ''#''"
    by (simp add: run_defs nested_resolved_def)
  note nested = dereferenceSchema_recovers_once
    [OF n_bundled n_dereferenced n_self_ref n_old_ref n_definitions n_fragment n_keys
        n_second_bundle [folded n_patched] n_second_dereference [folded n_patched]
        n_no_self_ref, unfolded n_patched]
  from nested have n1: "dereferenceSchema nested_parser (Suc 0) path_schema = None"
    and n2: "dereferenceSchema nested_parser (Suc (Suc 0)) path_schema = Some (Inr nested_resolved)"
    by blast+
  from n_dereferenced n_self_ref n_no_self_ref n1 n2 p1 p2 p3 show ?thesis by simp
qed

text \<open>The fragment \<^verbatim>\<open>Foo\<close> has no \<^verbatim>\<open>$ref\<close> of its own but points at \<^verbatim>\<open>Id\<close> from its
  \<^verbatim>\<open>items\<close>. After the one recovery pass the function returns the parser's reading of the
  patched document, in which \<^verbatim>\<open>items\<close> is resolved: not the fragment's properties merged
  onto the result.\<close>

theorem dereferenceSchema_returns_second_pass_counterexample:
  "ref_dereference nested_parser nested_bundled = Inr (JObj nested_self_ref) \<and>
   get_prop nested_self_ref ''$ref'' = JStr ''#'' \<and>
   opt_prop nested_definitions ''Foo'' = JObj [(''items'', JObj [(''$ref'', JStr ''#/definitions/Id'')])] \<and>
   JObj (delete_key (object_assign nested_self_ref
           [(''items'', JObj [(''$ref'', JStr ''#/definitions/Id'')])]) ''$ref'') = nested_patched \<and>
   dereferenceSchema nested_parser (Suc (Suc 0)) path_schema = Some (Inr nested_resolved) \<and>
   nested_resolved \<noteq> nested_patched \<and>
   opt_prop nested_resolved ''items'' \<noteq> JObj [(''$ref'', JStr ''#/definitions/Id'')]"
  by (simp add: run_defs Let_def nested_parser_def nested_bundled_def nested_self_ref_def
      nested_definitions_def nested_patched_def nested_resolved_def path_schema_def sample_def)

text \<open>
  Claim C7 (as the code has it). Repeating \<^verbatim>\<open>createSchema\<close> with the same name and schema
  leaves the handler, registry included, as the first call left it, provided the first call
  returned the pointer to the requested name itself, that is, it minted no suffixed name;
  and an entry whose value the equality test accepts against the truthy value already under
  its name is skipped, in any handler. The equality test is reflexive, as \<^verbatim>\<open>isDeepStrictEqual\<close> is.
\<close>

theorem createSchema_repeat_unrenamed:
  assumes refl: "\<And>v. isEqual C v v"
    and conv: "dereferenceAndConvert C fuel schema (JStr n)
                 [(''name'', JStr n), (''schema'', schema)] = Some (Inr convertedSchemas)"
    and shape: "read_prop convertedSchemas ''schemas'' = Inr (JObj ents)"
    and keys: "distinct (map fst ents)"
    and first: "createSchema C fuel h n schema = Some (Inr (''#/components/schemas/'' @ n), h1)"
  shows "createSchema C fuel h1 n schema = Some (Inr (''#/components/schemas/'' @ n), h1) \<and>
         (\<forall>g k v rest orig fin.
            truthy (get_prop (schemas_of g) k) \<longrightarrow> isEqual C v (get_prop (schemas_of g) k) \<longrightarrow>
            createSchema_entries C orig ((k, v) # rest) fin g =
            createSchema_entries C orig rest fin g)"
proof -
  let ?cached = "case map_of (modelReferences h) n of None \<Rightarrow> [] | Some r \<Rightarrow> r"
  have again: "createSchema C fuel h1 n schema = Some (Inr (''#/components/schemas/'' @ n), h1)"
  proof (cases "?cached \<noteq> [] \<and> schema = JUndefined")
    case True
    with first have "h1 = h" by (simp add: createSchema_def Let_def)
    with first show ?thesis by simp
  next
    case False
    obtain r h' where run: "createSchema_entries C n ents n h = (r, h')"
      by (cases "createSchema_entries C n ents n h")
    from first False conv shape run have r: "r = Inr n" and h': "h' = h1"
      by (auto simp: createSchema_def Let_def split: sum.splits)
    from run r h' have run1: "createSchema_entries C n ents n h = (Inr n, h1)" by simp
    from createSchema_entries_unrenamed [OF run1 keys] have "list_all (settled C h1) ents"
      by blast
    from createSchema_entries_settled [OF refl this]
    have run2: "createSchema_entries C n ents n h1 = (Inr n, h1)" .
    have "modelReferences h1 = modelReferences h"
      using createSchema_entries_modelReferences [of C n ents n h] run1 by simp
    with False conv shape run2 show ?thesis
      by (auto simp: createSchema_def Let_def)
  qed
  have skip: "\<forall>g k v rest orig fin.
            truthy (get_prop (schemas_of g) k) \<longrightarrow> isEqual C v (get_prop (schemas_of g) k) \<longrightarrow>
            createSchema_entries C orig ((k, v) # rest) fin g =
            createSchema_entries C orig rest fin g"
    by (simp add: createSchema_entries_Cons del: createSchema_entries.simps)
  from again skip show ?thesis by blast
qed

theorem createSchema_repeat_unrenamed_witness:
  "createSchema sample 1 empty_handler ''Foo'' number_schema =
     Some (Inr ''#/components/schemas/Foo'', foo_number_handler) \<and>
   createSchema sample 1 foo_number_handler ''Foo'' number_schema =
     Some (Inr ''#/components/schemas/Foo'', foo_number_handler) \<and>
   get_prop (schemas_of foo_handler) ''Foo'' = string_schema \<and>
   createSchema_entries sample ''Foo'' [(''Foo'', string_schema)] ''Foo'' foo_handler =
     (Inr ''Foo'', foo_handler)"
proof -
  have refl: "\<And>v. isEqual sample v v"
    by (simp add: sample_def)
  have conv: "dereferenceAndConvert sample 1 number_schema (JStr ''Foo'')
                [(''name'', JStr ''Foo''), (''schema'', number_schema)] =
              Some (Inr (JObj [(''schemas'', JObj [(''Foo'', number_schema)])]))"
    by (simp add: run_defs sample_def number_schema_def)
  have shape: "read_prop (JObj [(''schemas'', JObj [(''Foo'', number_schema)])]) ''schemas'' =
               Inr (JObj [(''Foo'', number_schema)])"
    by (simp add: run_defs)
  have keys: "distinct (map fst [(''Foo'', number_schema)])"
    by simp
  have first: "createSchema sample 1 empty_handler ''Foo'' number_schema =
                 Some (Inr (''#/components/schemas/'' @ ''Foo''), foo_number_handler)"
    by (simp add: run_defs Let_def sample_def number_schema_def empty_handler_def
        foo_number_handler_def)
  have held: "get_prop (schemas_of foo_handler) ''Foo'' = string_schema"
    by (simp add: run_defs foo_handler_def)
  have present: "truthy (get_prop (schemas_of foo_handler) ''Foo'')"
    by (simp add: held string_schema_def)
  have equal: "isEqual sample string_schema (get_prop (schemas_of foo_handler) ''Foo'')"
    by (simp add: held sample_def)
  note both = createSchema_repeat_unrenamed [OF refl conv shape keys first]
  from both [THEN conjunct2, rule_format, OF present equal, of "''Foo''" "[]" "''Foo''"]
  have skipped: "createSchema_entries sample ''Foo'' [(''Foo'', string_schema)] ''Foo'' foo_handler =
                 (Inr ''Foo'', foo_handler)"
    by simp
  from both [THEN conjunct1] first held skipped
  show ?thesis by simp
qed

text \<open>After a collision on the primary entry every repeat mints one more suffixed entry:
  the registry after the second call is not the registry after the first.\<close>

theorem createSchema_repeat_counterexample:
  "createSchema sample 1 foo_handler ''Foo'' number_schema =
     Some (Inr ''#/components/schemas/Foo-u0'', foo_once) \<and>
   createSchema sample 1 foo_once ''Foo'' number_schema =
     Some (Inr ''#/components/schemas/Foo-u1'', foo_twice) \<and>
   schemas_of foo_twice \<noteq> schemas_of foo_once"
  by (simp add: run_defs Let_def sample_def number_schema_def string_schema_def foo_handler_def
      foo_once_def foo_twice_def show_nat_0 show_nat_1)




text \<open>
  Claim C9. When the registry maps the requested name to a falsy value (\<^verbatim>\<open>null\<close>,
  \<^verbatim>\<open>false\<close>, \<^verbatim>\<open>0\<close> or the empty string), \<^verbatim>\<open>createSchema\<close> takes the name as absent: the
  converted primary value replaces the falsy one under that very name, the returned pointer
  names it, and no identifier is minted. The statement holds for every collaborator record,
  so whatever the equality test would answer: it is not asked.
\<close>

theorem createSchema_falsy_entry_is_absent:
  assumes payload: "schema \<noteq> JUndefined"
    and conv: "dereferenceAndConvert C fuel schema (JStr n)
                 [(''name'', JStr n), (''schema'', schema)] = Some (Inr convertedSchemas)"
    and shape: "read_prop convertedSchemas ''schemas'' = Inr (JObj ents)"
    and keys: "distinct (map fst ents)"
    and primary: "(n, v) \<in> set ents"
    and existing: "map_of (schemas_of h) n = Some a"
    and falsy: "a = JNull \<or> a = JBool False \<or> a = JNum 0 \<or> a = JStr []"
  shows "\<exists>h'. createSchema C fuel h n schema = Some (Inr (''#/components/schemas/'' @ n), h') \<and>
             map_of (schemas_of h') n = Some v \<and> minted h' = minted h"
proof -
  from existing falsy have "\<not> truthy (get_prop (schemas_of h) n)"
    by (auto simp: get_prop_def)
  from createSchema_entries_falsy [OF keys primary this, of C n]
  obtain h' where run: "createSchema_entries C n ents n h = (Inr n, h')"
    and stored: "map_of (schemas_of h') n = Some v" and same: "minted h' = minted h"
    by blast
  have "createSchema C fuel h n schema = Some (Inr (''#/components/schemas/'' @ n), h')"
    using payload conv shape run by (simp add: createSchema_def Let_def)
  with stored same show ?thesis by blast
qed

theorem createSchema_falsy_entry_is_absent_witness:
  "map_of (schemas_of null_handler) ''Foo'' = Some JNull \<and>
   (\<exists>h'. createSchema sample 1 null_handler ''Foo'' number_schema =
            Some (Inr ''#/components/schemas/Foo'', h') \<and>
          map_of (schemas_of h') ''Foo'' = Some number_schema \<and> minted h' = 0)"
proof -
  have payload: "number_schema \<noteq> JUndefined"
    by (simp add: number_schema_def)
  have conv: "dereferenceAndConvert sample 1 number_schema (JStr ''Foo'')
                [(''name'', JStr ''Foo''), (''schema'', number_schema)] =
              Some (Inr (JObj [(''schemas'', JObj [(''Foo'', number_schema)])]))"
    by (simp add: run_defs sample_def number_schema_def)
  have shape: "read_prop (JObj [(''schemas'', JObj [(''Foo'', number_schema)])]) ''schemas'' =
               Inr (JObj [(''Foo'', number_schema)])"
    by (simp add: run_defs)
  have existing: "map_of (schemas_of null_handler) ''Foo'' = Some JNull"
    by (simp add: run_defs null_handler_def)
  have m0: "minted null_handler = 0"
    by (simp add: null_handler_def)
  from createSchema_falsy_entry_is_absent [OF payload conv shape _ _ existing]
  show ?thesis using existing by (simp add: m0)
qed

text \<open>
  Claim C10 (as the code has it). In the bulk operation, when the dereference-and-convert
  step rejects with a value that is not an \<^verbatim>\<open>Error\<close> instance and is neither \<^verbatim>\<open>null\<close> nor
  \<^verbatim>\<open>undefined\<close>, the rejection is never what the caller gets: the value stands in for the
  converted result. If its \<^verbatim>\<open>schemas\<close> is an object the entries are merged and nothing is
  thrown; otherwise the conversion-shape error, which embeds the serialised value, is
  thrown.
\<close>

theorem addModel_substitutes_rejection:
  assumes rejected: "dereferenceAndConvert C fuel (get_prop model ''schema'')
                       (get_prop model ''name'') model = Some (Inl (NonErr v))"
    and some: "\<not> nullish v"
  shows "(\<forall>ents. opt_prop v ''schemas'' = JObj ents \<longrightarrow>
            addModel C fuel model h =
              Some (Inr (), addModel_entries (get_prop model ''name'') ents h)) \<and>
         ((\<forall>ents. opt_prop v ''schemas'' \<noteq> JObj ents) \<longrightarrow>
            addModel C fuel model h =
              Some (Inl (Err (JsError
                (''There was an error converting the '' @ to_string C (get_prop model ''name'') @
                 '' schema. Model received looks like: '' @ newline @ newline @
                 stringify C (JObj model) @ ''.  The convereted schema looks like '' @
                 newline @ newline @ stringify C v) None)), h)) \<and>
         (\<forall>g. addModel C fuel model h \<noteq> Some (Inl (NonErr v), g))"
  using rejected some
  by (cases "opt_prop v ''schemas''")
     (simp_all add: addModel_def Let_def catch_non_error_def read_prop_def conversion_message_def)

theorem addModel_substitutes_rejection_witness:
  "dereferenceAndConvert throws_text 1 (get_prop foo_model ''schema'')
     (get_prop foo_model ''name'') foo_model = Some (Inl (NonErr (JStr ''boom''))) \<and>
   addModel throws_text 1 foo_model foo_handler =
     Some (Inl (Err (JsError
       (''There was an error converting the Foo schema. Model received looks like: '' @
        newline @ newline @ ''<json>.  The convereted schema looks like '' @
        newline @ newline @ stringify throws_text (JStr ''boom'')) None)), foo_handler) \<and>
   addModel throws_text 1 foo_model foo_handler \<noteq>
     Some (Inl (NonErr (JStr ''boom'')), foo_handler) \<and>
   dereferenceAndConvert throws_set 1 (get_prop foo_model ''schema'')
     (get_prop foo_model ''name'') foo_model =
     Some (Inl (NonErr (JObj [(''schemas'', JObj [(''Foo'', number_schema)])]))) \<and>
   addModel throws_set 1 foo_model foo_listed = Some (Inr (), foo_absorbed)"
proof -
  have rejected: "dereferenceAndConvert throws_text 1 (get_prop foo_model ''schema'')
                    (get_prop foo_model ''name'') foo_model = Some (Inl (NonErr (JStr ''boom'')))"
    by (simp add: run_defs throws_text_def sample_def number_schema_def foo_model_def)
  have some: "\<not> nullish (JStr ''boom'')"
    by simp
  have no_object: "\<forall>ents. opt_prop (JStr ''boom'') ''schemas'' \<noteq> JObj ents"
    by (simp add: run_defs show_nat.simps)
  from addModel_substitutes_rejection
         [OF rejected some, of foo_handler, THEN conjunct2, THEN conjunct1, THEN mp, OF no_object]
  have "addModel throws_text 1 foo_model foo_handler =
          Some (Inl (Err (JsError
            (''There was an error converting the '' @
             to_string throws_text (get_prop foo_model ''name'') @
             '' schema. Model received looks like: '' @ newline @ newline @
             stringify throws_text (JObj foo_model) @ ''.  The convereted schema looks like '' @
             newline @ newline @ stringify throws_text (JStr ''boom'')) None)), foo_handler)" .
  then have thrown: "addModel throws_text 1 foo_model foo_handler =
     Some (Inl (Err (JsError
       (''There was an error converting the Foo schema. Model received looks like: '' @
        newline @ newline @ ''<json>.  The convereted schema looks like '' @
        newline @ newline @ stringify throws_text (JStr ''boom'')) None)), foo_handler)"
    by (simp add: throws_text_def sample_def to_string_def get_prop_def foo_model_def)
  have other: "addModel throws_text 1 foo_model foo_handler \<noteq>
                 Some (Inl (NonErr (JStr ''boom'')), foo_handler)"
    using addModel_substitutes_rejection [OF rejected some, of foo_handler] by blast
  have rejected_set: "dereferenceAndConvert throws_set 1 (get_prop foo_model ''schema'')
                        (get_prop foo_model ''name'') foo_model =
                      Some (Inl (NonErr (JObj [(''schemas'', JObj [(''Foo'', number_schema)])])))"
    by (simp add: run_defs throws_set_def sample_def number_schema_def foo_model_def)
  have some_set: "\<not> nullish (JObj [(''schemas'', JObj [(''Foo'', number_schema)])])"
    by simp
  have object: "opt_prop (JObj [(''schemas'', JObj [(''Foo'', number_schema)])]) ''schemas'' =
                JObj [(''Foo'', number_schema)]"
    by (simp add: run_defs)
  from addModel_substitutes_rejection
         [OF rejected_set some_set, of foo_listed, THEN conjunct1, rule_format, OF object]
  have "addModel throws_set 1 foo_model foo_listed =
          Some (Inr (), addModel_entries (get_prop foo_model ''name'')
                          [(''Foo'', number_schema)] foo_listed)" .
  then have merged: "addModel throws_set 1 foo_model foo_listed = Some (Inr (), foo_absorbed)"
    by (simp add: run_defs foo_model_def foo_listed_def foo_absorbed_def string_schema_def
        number_schema_def)
  from rejected thrown other rejected_set merged show ?thesis by simp
qed

text \<open>A rejection with \<^verbatim>\<open>null\<close>: reading \<^verbatim>\<open>schemas\<close> off it in the shape check throws the
  engine's \<^verbatim>\<open>TypeError\<close>, which is not the conversion-shape error.\<close>

theorem addModel_null_rejection_counterexample:
  "dereferenceAndConvert throws_null 1 (get_prop foo_model ''schema'')
     (get_prop foo_model ''name'') foo_model = Some (Inl (NonErr JNull)) \<and>
   addModelsToOpenAPI throws_null 1 foo_listed =
     Some (Inl (Err (TypeErr JNull ''schemas'')), foo_listed) \<and>
   TypeErr JNull ''schemas'' \<noteq> JsError (conversion_message throws_null foo_model JNull) None"
  by (simp add: run_defs Let_def throws_null_def sample_def number_schema_def string_schema_def
      foo_model_def foo_listed_def)

end
